theory Spec2Isabelle
  imports Complex_Main "HOL-Library.Word"
begin

section \<open>Code taxonomy (package errx, code.go)\<close>

text \<open>
  \<^verbatim>\<open>type Code string\<close>: an open string classification. The empty string is the zero
  value and means that no code is set.
\<close>

type_synonym Code = string

definition Canceled :: Code where "Canceled = ''canceled''"
definition Unknown :: Code where "Unknown = ''unknown''"
definition InvalidArgument :: Code where "InvalidArgument = ''invalid_argument''"
definition DeadlineExceeded :: Code where "DeadlineExceeded = ''deadline_exceeded''"
definition NotFound :: Code where "NotFound = ''not_found''"
definition AlreadyExists :: Code where "AlreadyExists = ''already_exists''"
definition PermissionDenied :: Code where "PermissionDenied = ''permission_denied''"
definition ResourceExhausted :: Code where "ResourceExhausted = ''resource_exhausted''"
definition FailedPrecondition :: Code where "FailedPrecondition = ''failed_precondition''"
definition Aborted :: Code where "Aborted = ''aborted''"
definition OutOfRange :: Code where "OutOfRange = ''out_of_range''"
definition Unimplemented :: Code where "Unimplemented = ''unimplemented''"
definition Internal :: Code where "Internal = ''internal''"
definition Unavailable :: Code where "Unavailable = ''unavailable''"
definition DataLoss :: Code where "DataLoss = ''data_loss''"
definition Unauthenticated :: Code where "Unauthenticated = ''unauthenticated''"

lemmas code_defs =
  Canceled_def Unknown_def InvalidArgument_def DeadlineExceeded_def NotFound_def
  AlreadyExists_def PermissionDenied_def ResourceExhausted_def FailedPrecondition_def
  Aborted_def OutOfRange_def Unimplemented_def Internal_def Unavailable_def DataLoss_def
  Unauthenticated_def

text \<open>The sixteen built-in codes of the const block, in declaration order.\<close>

definition well_known_codes :: "Code list" where
  "well_known_codes =
    [Canceled, Unknown, InvalidArgument, DeadlineExceeded, NotFound, AlreadyExists,
     PermissionDenied, ResourceExhausted, FailedPrecondition, Aborted, OutOfRange,
     Unimplemented, Internal, Unavailable, DataLoss, Unauthenticated]"

section \<open>gRPC code tables (package gerr)\<close>

text \<open>
  \<^verbatim>\<open>codes.Code\<close> of google.golang.org/grpc is a \<^verbatim>\<open>uint32\<close>; the constants are
  numbered 0 (OK) to 16 (Unauthenticated).
\<close>

type_synonym codes_Code = "32 word"

definition codes_OK :: codes_Code where "codes_OK = 0"
definition codes_Canceled :: codes_Code where "codes_Canceled = 1"
definition codes_Unknown :: codes_Code where "codes_Unknown = 2"
definition codes_InvalidArgument :: codes_Code where "codes_InvalidArgument = 3"
definition codes_DeadlineExceeded :: codes_Code where "codes_DeadlineExceeded = 4"
definition codes_NotFound :: codes_Code where "codes_NotFound = 5"
definition codes_AlreadyExists :: codes_Code where "codes_AlreadyExists = 6"
definition codes_PermissionDenied :: codes_Code where "codes_PermissionDenied = 7"
definition codes_ResourceExhausted :: codes_Code where "codes_ResourceExhausted = 8"
definition codes_FailedPrecondition :: codes_Code where "codes_FailedPrecondition = 9"
definition codes_Aborted :: codes_Code where "codes_Aborted = 10"
definition codes_OutOfRange :: codes_Code where "codes_OutOfRange = 11"
definition codes_Unimplemented :: codes_Code where "codes_Unimplemented = 12"
definition codes_Internal :: codes_Code where "codes_Internal = 13"
definition codes_Unavailable :: codes_Code where "codes_Unavailable = 14"
definition codes_DataLoss :: codes_Code where "codes_DataLoss = 15"
definition codes_Unauthenticated :: codes_Code where "codes_Unauthenticated = 16"

lemmas codes_defs =
  codes_OK_def codes_Canceled_def codes_Unknown_def codes_InvalidArgument_def
  codes_DeadlineExceeded_def codes_NotFound_def codes_AlreadyExists_def
  codes_PermissionDenied_def codes_ResourceExhausted_def codes_FailedPrecondition_def
  codes_Aborted_def codes_OutOfRange_def codes_Unimplemented_def codes_Internal_def
  codes_Unavailable_def codes_DataLoss_def codes_Unauthenticated_def

definition errxToGRPC :: "Code \<rightharpoonup> codes_Code" where
  "errxToGRPC = map_of
    [(Canceled, codes_Canceled),
     (Unknown, codes_Unknown),
     (InvalidArgument, codes_InvalidArgument),
     (DeadlineExceeded, codes_DeadlineExceeded),
     (NotFound, codes_NotFound),
     (AlreadyExists, codes_AlreadyExists),
     (PermissionDenied, codes_PermissionDenied),
     (ResourceExhausted, codes_ResourceExhausted),
     (FailedPrecondition, codes_FailedPrecondition),
     (Aborted, codes_Aborted),
     (OutOfRange, codes_OutOfRange),
     (Unimplemented, codes_Unimplemented),
     (Internal, codes_Internal),
     (Unavailable, codes_Unavailable),
     (DataLoss, codes_DataLoss),
     (Unauthenticated, codes_Unauthenticated)]"

definition grpcToErrx :: "codes_Code \<rightharpoonup> Code" where
  "grpcToErrx = map_of
    [(codes_OK, ''''),
     (codes_Canceled, Canceled),
     (codes_Unknown, Unknown),
     (codes_InvalidArgument, InvalidArgument),
     (codes_DeadlineExceeded, DeadlineExceeded),
     (codes_NotFound, NotFound),
     (codes_AlreadyExists, AlreadyExists),
     (codes_PermissionDenied, PermissionDenied),
     (codes_ResourceExhausted, ResourceExhausted),
     (codes_FailedPrecondition, FailedPrecondition),
     (codes_Aborted, Aborted),
     (codes_OutOfRange, OutOfRange),
     (codes_Unimplemented, Unimplemented),
     (codes_Internal, Internal),
     (codes_Unavailable, Unavailable),
     (codes_DataLoss, DataLoss),
     (codes_Unauthenticated, Unauthenticated)]"

definition ToGRPCCode :: "Code \<Rightarrow> codes_Code" where
  "ToGRPCCode c = (case errxToGRPC c of Some gc \<Rightarrow> gc | None \<Rightarrow> codes_Unknown)"

definition gerr_ToErrxCode :: "codes_Code \<Rightarrow> Code" where
  "gerr_ToErrxCode c = (case grpcToErrx c of Some ec \<Rightarrow> ec | None \<Rightarrow> Unknown)"

section \<open>Connect code tables (package cerr)\<close>

text \<open>
  \<^verbatim>\<open>connect.Code\<close> of connectrpc.com/connect is a \<^verbatim>\<open>uint32\<close> as well; it has no
  constant for 0, and numbers its codes 1 (CodeCanceled) to 16 (CodeUnauthenticated).
\<close>

type_synonym connect_Code = "32 word"

definition connect_CodeCanceled :: connect_Code where "connect_CodeCanceled = 1"
definition connect_CodeUnknown :: connect_Code where "connect_CodeUnknown = 2"
definition connect_CodeInvalidArgument :: connect_Code where "connect_CodeInvalidArgument = 3"
definition connect_CodeDeadlineExceeded :: connect_Code where "connect_CodeDeadlineExceeded = 4"
definition connect_CodeNotFound :: connect_Code where "connect_CodeNotFound = 5"
definition connect_CodeAlreadyExists :: connect_Code where "connect_CodeAlreadyExists = 6"
definition connect_CodePermissionDenied :: connect_Code where "connect_CodePermissionDenied = 7"
definition connect_CodeResourceExhausted :: connect_Code where "connect_CodeResourceExhausted = 8"
definition connect_CodeFailedPrecondition :: connect_Code where "connect_CodeFailedPrecondition = 9"
definition connect_CodeAborted :: connect_Code where "connect_CodeAborted = 10"
definition connect_CodeOutOfRange :: connect_Code where "connect_CodeOutOfRange = 11"
definition connect_CodeUnimplemented :: connect_Code where "connect_CodeUnimplemented = 12"
definition connect_CodeInternal :: connect_Code where "connect_CodeInternal = 13"
definition connect_CodeUnavailable :: connect_Code where "connect_CodeUnavailable = 14"
definition connect_CodeDataLoss :: connect_Code where "connect_CodeDataLoss = 15"
definition connect_CodeUnauthenticated :: connect_Code where "connect_CodeUnauthenticated = 16"

lemmas connect_defs =
  connect_CodeCanceled_def connect_CodeUnknown_def connect_CodeInvalidArgument_def
  connect_CodeDeadlineExceeded_def connect_CodeNotFound_def connect_CodeAlreadyExists_def
  connect_CodePermissionDenied_def connect_CodeResourceExhausted_def
  connect_CodeFailedPrecondition_def connect_CodeAborted_def connect_CodeOutOfRange_def
  connect_CodeUnimplemented_def connect_CodeInternal_def connect_CodeUnavailable_def
  connect_CodeDataLoss_def connect_CodeUnauthenticated_def

definition errxToConnect :: "Code \<rightharpoonup> connect_Code" where
  "errxToConnect = map_of
    [(Canceled, connect_CodeCanceled),
     (Unknown, connect_CodeUnknown),
     (InvalidArgument, connect_CodeInvalidArgument),
     (DeadlineExceeded, connect_CodeDeadlineExceeded),
     (NotFound, connect_CodeNotFound),
     (AlreadyExists, connect_CodeAlreadyExists),
     (PermissionDenied, connect_CodePermissionDenied),
     (ResourceExhausted, connect_CodeResourceExhausted),
     (FailedPrecondition, connect_CodeFailedPrecondition),
     (Aborted, connect_CodeAborted),
     (OutOfRange, connect_CodeOutOfRange),
     (Unimplemented, connect_CodeUnimplemented),
     (Internal, connect_CodeInternal),
     (Unavailable, connect_CodeUnavailable),
     (DataLoss, connect_CodeDataLoss),
     (Unauthenticated, connect_CodeUnauthenticated)]"

definition connectToErrx :: "connect_Code \<rightharpoonup> Code" where
  "connectToErrx = map_of
    [(0, ''''),
     (connect_CodeCanceled, Canceled),
     (connect_CodeUnknown, Unknown),
     (connect_CodeInvalidArgument, InvalidArgument),
     (connect_CodeDeadlineExceeded, DeadlineExceeded),
     (connect_CodeNotFound, NotFound),
     (connect_CodeAlreadyExists, AlreadyExists),
     (connect_CodePermissionDenied, PermissionDenied),
     (connect_CodeResourceExhausted, ResourceExhausted),
     (connect_CodeFailedPrecondition, FailedPrecondition),
     (connect_CodeAborted, Aborted),
     (connect_CodeOutOfRange, OutOfRange),
     (connect_CodeUnimplemented, Unimplemented),
     (connect_CodeInternal, Internal),
     (connect_CodeUnavailable, Unavailable),
     (connect_CodeDataLoss, DataLoss),
     (connect_CodeUnauthenticated, Unauthenticated)]"

definition ToConnectCode :: "Code \<Rightarrow> connect_Code" where
  "ToConnectCode c = (case errxToConnect c of Some cc \<Rightarrow> cc | None \<Rightarrow> connect_CodeUnknown)"

definition cerr_ToErrxCode :: "connect_Code \<Rightarrow> Code" where
  "cerr_ToErrxCode c = (case connectToErrx c of Some ec \<Rightarrow> ec | None \<Rightarrow> Unknown)"

section \<open>HTTP status tables (package herr)\<close>

text \<open>
  The two tables are package-level maps that \<^verbatim>\<open>RegisterCode\<close> updates in place, so they
  are modelled as a state record that the lookups read. \<open>init_tables\<close> holds the two map
  literals of the source. Go's \<^verbatim>\<open>int\<close> status carries no arithmetic here and is an
  \<open>int\<close>.
\<close>

record tables =
  errxToHTTP :: "Code \<rightharpoonup> int"
  httpToErrx :: "int \<rightharpoonup> Code"

definition http_StatusInternalServerError :: int where
  "http_StatusInternalServerError = 500"

definition init_tables :: tables where
  "init_tables = \<lparr>
     errxToHTTP = map_of
       [(InvalidArgument, 400),
        (OutOfRange, 400),
        (Unauthenticated, 401),
        (PermissionDenied, 403),
        (NotFound, 404),
        (AlreadyExists, 409),
        (Aborted, 409),
        (FailedPrecondition, 412),
        (ResourceExhausted, 429),
        (Canceled, 499),
        (Internal, 500),
        (Unknown, 500),
        (DataLoss, 500),
        (Unimplemented, 501),
        (Unavailable, 503),
        (DeadlineExceeded, 504)],
     httpToErrx = map_of
       [(400, InvalidArgument),
        (401, Unauthenticated),
        (403, PermissionDenied),
        (404, NotFound),
        (409, AlreadyExists),
        (412, FailedPrecondition),
        (429, ResourceExhausted),
        (499, Canceled),
        (500, Internal),
        (501, Unimplemented),
        (503, Unavailable),
        (504, DeadlineExceeded)] \<rparr>"

definition RegisterCode :: "Code \<Rightarrow> int \<Rightarrow> tables \<Rightarrow> tables" where
  "RegisterCode c status t =
     t\<lparr> errxToHTTP := (errxToHTTP t)(c \<mapsto> status),
        httpToErrx := (httpToErrx t)(status \<mapsto> c) \<rparr>"

definition ToHTTPStatus :: "tables \<Rightarrow> Code \<Rightarrow> int" where
  "ToHTTPStatus t c =
     (case errxToHTTP t c of Some s \<Rightarrow> s | None \<Rightarrow> http_StatusInternalServerError)"

definition herr_ToErrxCode :: "tables \<Rightarrow> int \<Rightarrow> Code" where
  "herr_ToErrxCode t status = (case httpToErrx t status of Some c \<Rightarrow> c | None \<Rightarrow> Unknown)"

section \<open>The error chain (package errx)\<close>

subsection \<open>Structured fields\<close>

text \<open>
  The values of Go's \<^verbatim>\<open>any\<close> that \<^verbatim>\<open>argsToAttrs\<close> tells apart: a string, a
  \<^verbatim>\<open>slog.Attr\<close> (key and value), or anything else. \<^verbatim>\<open>slog.Any(k, v)\<close> and
  \<^verbatim>\<open>slog.String(k, v)\<close> build the attribute with key \<open>k\<close> and value \<open>v\<close>.
\<close>

datatype any = AnyString string | AnyInt int | AnyAttr string any | AnyOther string

datatype Attr = Attr (Key: string) (Value: any)

text \<open>
  The loop of \<^verbatim>\<open>argsToAttrs\<close> consumes one or two arguments per iteration; the
  equations follow the order of its type switch.
\<close>

fun argsToAttrs :: "any list \<Rightarrow> Attr list" where
  "argsToAttrs [] = []"
| "argsToAttrs (AnyAttr k v # rest) = Attr k v # argsToAttrs rest"
| "argsToAttrs (AnyString v # a # rest) = Attr v a # argsToAttrs rest"
| "argsToAttrs [AnyString v] = [Attr ''!BADKEY'' (AnyString v)]"
| "argsToAttrs (v # rest) = Attr ''!BADKEY'' v # argsToAttrs rest"

subsection \<open>Stack traces and detail objects\<close>

record Frame =
  Function :: string
  File :: string
  Line :: int

datatype Stack = Stack (frames: "Frame list")

text \<open>
  The messages of \<^verbatim>\<open>google.golang.org/genproto/googleapis/rpc/errdetails\<close> that the
  adapters build, and any other protocol buffer message.
\<close>

datatype proto =
    pb_BadRequest "(string \<times> string) list"
  | pb_PreconditionFailure "(string \<times> string \<times> string) list"
  | pb_ResourceInfo string string string string
  | pb_ErrorInfo string string "(string \<times> string) list"
  | pb_LocalizedMessage string string
  | pb_Other string

text \<open>
  The canonical detail structs of details.go (fields in declaration order), a value that
  already is a \<^verbatim>\<open>proto.Message\<close>, or any other Go value. The
  \<^verbatim>\<open>map[string]string\<close> metadata of \<^verbatim>\<open>ErrorInfoDetail\<close> is an association list.
\<close>

datatype BadRequestFieldViolation = BadRequestFieldViolation string string

datatype PreconditionViolation = PreconditionViolation string string string

datatype detail =
    BadRequestDetail "BadRequestFieldViolation list"
  | PreconditionFailureDetail "PreconditionViolation list"
  | ResourceInfoDetail string string string string
  | ErrorInfoDetail string string "(string \<times> string) list"
  | ProtoMessage proto
  | OtherDetail string

definition FieldViolation :: "string \<Rightarrow> string \<Rightarrow> detail" where
  "FieldViolation field description =
     BadRequestDetail [BadRequestFieldViolation field description]"

subsection \<open>Records of the adapters\<close>

text \<open>
  The structs that the adapters exchange with their protocol libraries, declared ahead of
  the error values they are filled from. A detail on the wire is an \<^verbatim>\<open>anypb.Any\<close>
  (type URL and bytes). Packing and unpacking belong to the protobuf library and are
  parameters of the adapters: \<open>anypb_New\<close> is \<open>None\<close> when marshalling fails,
  \<open>UnmarshalNew\<close> is \<open>Inl\<close> of the error's text when the payload cannot be decoded.
  \<open>status_Status\<close> is the content of a gRPC \<^verbatim>\<open>status.Status\<close>;
  \<open>ProblemDetail\<close> and \<open>LocalizedMsg\<close> are the structs of package herr, with JSON
  values for the \<^verbatim>\<open>map[string]any\<close> objects of the \<open>errors\<close> member;
  \<open>ResponseWriter\<close> is what a handler has written to an \<^verbatim>\<open>http.ResponseWriter\<close>.
\<close>

datatype Any = Any string string

record status_Status =
  status_code :: codes_Code
  status_message :: string
  status_details :: "Any list"

datatype json = JString string | JArray "json list" | JObject "(string \<times> json) list"

record LocalizedMsg =
  Locale :: string
  Message :: string

record ProblemDetail =
  Type :: string
  Title :: string
  Status :: int
  Detail :: string
  Instance :: string
  Code :: string
  Errors :: "(string \<times> json) list list"
  LocalizedMessage :: "LocalizedMsg option"

record ResponseWriter =
  rw_header :: "string \<rightharpoonup> string"
  rw_status :: "int option"
  rw_body :: string

subsection \<open>Records of the store\<close>

text \<open>
  What the mutators do in memory, for the claims about sharing and mutation. An address
  is an index into the store. A slice is its header (backing array, length, capacity; the
  nil slice has no array); an \<^verbatim>\<open>error\<close> interface value is nil, a pointer to an
  \<^verbatim>\<open>Error\<close> struct, or a reference to a value of another type; \<open>node\<close> is the
  struct \<^verbatim>\<open>Error\<close> as it lies in memory. The store holds the structs allocated so
  far, the backing arrays of the \<^verbatim>\<open>[]slog.Attr\<close> and \<^verbatim>\<open>[]any\<close> slices (each with
  the elements written so far), and the captured stacks; allocation appends.
\<close>

type_synonym addr = nat

record slice =
  sl_array :: "addr option"
  sl_len :: nat
  sl_cap :: nat

datatype iface = NilError | ErrorPtr addr | OtherError addr

record node =
  n_msg :: string
  n_cause :: iface
  n_code :: Code
  n_fields :: slice
  n_stack :: "addr option"
  n_details :: slice

record heap =
  h_nodes :: "node list"
  h_attrs :: "Attr list list"
  h_details :: "detail list list"
  h_stacks :: "Stack list"

record view =
  v_msg :: string
  v_code :: Code
  v_fields :: "Attr list"
  v_details :: "detail list"
  v_stack :: "Stack option"

subsection \<open>Error values\<close>

text \<open>
  \<open>Error\<close> is the struct \<^verbatim>\<open>errx.Error\<close>; its \<open>cause\<close> is a Go \<^verbatim>\<open>error\<close>
  interface value, \<open>None\<close> for nil. The dynamic types an \<^verbatim>\<open>error\<close> can have are
  \<^verbatim>\<open>*Error\<close>, \<^verbatim>\<open>*SentinelError\<close> (message and code), and any type of another
  package: \<open>Foreign m c u\<close> renders as \<open>m\<close>, implements \<^verbatim>\<open>Coder\<close> with code \<open>c'\<close>
  when \<open>c = Some c'\<close>, and has \<^verbatim>\<open>Unwrap() error\<close> returning \<open>u\<close>
  (\<^verbatim>\<open>errors.New\<close> is \<open>Foreign m None None\<close>, \<^verbatim>\<open>fmt.Errorf("ctx: %w", err)\<close> is
  \<open>Foreign m None (Some err)\<close>). Typed nil pointers inside an interface value and
  errors with \<^verbatim>\<open>Unwrap() []error\<close> or an \<^verbatim>\<open>As\<close> method are outside the model.
\<close>

datatype Error =
  Error (msg: string) (cause: "error option") (code: Code) (fields: "Attr list")
        (stack: "Stack option") (details: "detail list")
and error =
    ErrxError Error
  | Sentinel string Code
  | Foreign string "Code option" "error option"

definition New :: "string \<Rightarrow> any list \<Rightarrow> Error" where
  "New m args = Error m None '''' (argsToAttrs args) None []"

definition NewSentinel :: "string \<Rightarrow> Code \<Rightarrow> error" where
  "NewSentinel m c = Sentinel m c"

text \<open>\<^verbatim>\<open>Wrap\<close> and \<^verbatim>\<open>Wrapf\<close> return a nil \<^verbatim>\<open>*Error\<close> for a nil cause.\<close>

definition Wrap :: "error option \<Rightarrow> any list \<Rightarrow> Error option" where
  "Wrap err args =
     (if err = None then None
      else Some (Error '''' err '''' (argsToAttrs args) None []))"

text \<open>
  \<^verbatim>\<open>fmt.Sprintf\<close> is taken as a parameter: \<open>Sprintf format fmtArgs\<close> is the
  formatted message.
\<close>

definition Wrapf ::
  "(string \<Rightarrow> any list \<Rightarrow> string) \<Rightarrow> error option \<Rightarrow> string \<Rightarrow> any list \<Rightarrow> Error option"
where
  "Wrapf Sprintf err format fmtArgs =
     (if err = None then None
      else Some (Error (Sprintf format fmtArgs) err '''' [] None []))"

text \<open>
  The mutators copy the struct and replace one field. On values the copy is the update
  of one component; the store-level model further down spells out the copy, the fresh
  backing arrays and the allocation.
\<close>

definition Error_With :: "Error \<Rightarrow> any list \<Rightarrow> Error" where
  "Error_With e args =
     Error (msg e) (cause e) (code e) (([] @ fields e) @ argsToAttrs args) (stack e) (details e)"

definition Error_WithCode :: "Error \<Rightarrow> Code \<Rightarrow> Error" where
  "Error_WithCode e c = Error (msg e) (cause e) c (fields e) (stack e) (details e)"

definition Error_WithDetails :: "Error \<Rightarrow> detail list \<Rightarrow> Error" where
  "Error_WithDetails e ds =
     Error (msg e) (cause e) (code e) (fields e) (stack e) (([] @ details e) @ ds)"

definition Error_WithFieldViolation :: "Error \<Rightarrow> string \<Rightarrow> string \<Rightarrow> Error" where
  "Error_WithFieldViolation e field description =
     Error_WithDetails e [FieldViolation field description]"

text \<open>
  \<^verbatim>\<open>captureStack\<close> reads the runtime's call frames; the stack it returns (never nil) is
  the parameter \<open>captured\<close>.
\<close>

definition Error_WithStack :: "Stack \<Rightarrow> Error \<Rightarrow> Error" where
  "Error_WithStack captured e =
     Error (msg e) (cause e) (code e) (fields e) (Some captured) (details e)"

definition Error_Unwrap :: "Error \<Rightarrow> error option" where
  "Error_Unwrap e = cause e"

text \<open>\<^verbatim>\<open>Error()\<close>: the method of \<^verbatim>\<open>*Error\<close> and the call through the interface.\<close>

fun Error_Error :: "Error \<Rightarrow> string"
  and error_Error :: "error \<Rightarrow> string"
where
  "Error_Error (Error m None cd fs st ds) = m"
| "Error_Error (Error m (Some c) cd fs st ds) =
     (if m = '''' then error_Error c else m @ '': '' @ error_Error c)"
| "error_Error (ErrxError e) = Error_Error e"
| "error_Error (Sentinel m c) = m"
| "error_Error (Foreign m c u) = m"

subsection \<open>Walking the chain with errors.As\<close>

text \<open>
  \<^verbatim>\<open>errors.As(err, &target)\<close> returns the first error of the chain \<open>err\<close>,
  \<open>err.Unwrap()\<close>, ... whose dynamic type fits the target, and fails when the chain ends:
  \<open>As_Error\<close> for a target of type \<^verbatim>\<open>*Error\<close>, \<open>As_Coder\<close> for the interface
  \<^verbatim>\<open>Coder\<close>.
\<close>

fun errors_Unwrap :: "error \<Rightarrow> error option" where
  "errors_Unwrap (ErrxError e) = Error_Unwrap e"
| "errors_Unwrap (Sentinel m c) = None"
| "errors_Unwrap (Foreign m c u) = u"

fun As_Error :: "error \<Rightarrow> Error option" where
  "As_Error (ErrxError e) = Some e"
| "As_Error (Sentinel m c) = None"
| "As_Error (Foreign m c None) = None"
| "As_Error (Foreign m c (Some err)) = As_Error err"

fun As_Coder :: "error \<Rightarrow> error option" where
  "As_Coder (ErrxError e) = Some (ErrxError e)"
| "As_Coder (Sentinel m c) = Some (Sentinel m c)"
| "As_Coder (Foreign m (Some c) u) = Some (Foreign m (Some c) u)"
| "As_Coder (Foreign m None None) = None"
| "As_Coder (Foreign m None (Some err)) = As_Coder err"

lemma As_Error_size: "As_Error err = Some ex \<Longrightarrow> size ex < size err"
  by (induction err rule: As_Error.induct) auto

lemma As_Coder_size: "As_Coder err = Some c \<Longrightarrow> size c \<le> size err"
  by (induction err rule: As_Coder.induct) auto

text \<open>
  \<^verbatim>\<open>(*Error).Code\<close>, \<^verbatim>\<open>CodeOf\<close> and the dynamic call \<^verbatim>\<open>c.Code()\<close> on the
  \<^verbatim>\<open>Coder\<close> that \<^verbatim>\<open>errors.As\<close> found call each other.
\<close>

function Error_Code :: "Error \<Rightarrow> Code"
  and CodeOf :: "error option \<Rightarrow> Code"
  and Coder_Code :: "error \<Rightarrow> Code"
where
  "Error_Code e = (if code e \<noteq> '''' then code e else CodeOf (cause e))"
| "CodeOf None = ''''"
| "CodeOf (Some err) = (case As_Coder err of Some c \<Rightarrow> Coder_Code c | None \<Rightarrow> '''')"
| "Coder_Code (ErrxError e) = Error_Code e"
| "Coder_Code (Sentinel m c) = c"
| "Coder_Code (Foreign m c u) = (case c of Some c' \<Rightarrow> c' | None \<Rightarrow> '''')"
  by pat_completeness auto
termination
  apply (relation "measure (\<lambda>x. case x of Inl e \<Rightarrow> 2 * size e + 1
         | Inr (Inl eo) \<Rightarrow> 2 * size_option size eo + 1 | Inr (Inr c) \<Rightarrow> 2 * size c)")
     apply simp
  subgoal for e by (cases e) (auto split: option.splits)
  subgoal for err c using As_Coder_size[of err c] by auto
  subgoal for e by simp
  done

declare Error_Code.simps [simp del]

definition IsCode :: "error option \<Rightarrow> Code \<Rightarrow> bool" where
  "IsCode err c = (CodeOf err = c)"

text \<open>
  \<^verbatim>\<open>Fields\<close> and \<^verbatim>\<open>DetailsOf\<close>: the loop variable \<^verbatim>\<open>err\<close> and the accumulator
  are the arguments of the loop function.
\<close>

function Fields_loop :: "Attr list \<Rightarrow> error option \<Rightarrow> Attr list" where
  "Fields_loop attrs None = attrs"
| "Fields_loop attrs (Some err) =
     (case As_Error err of
        Some ex \<Rightarrow> Fields_loop (attrs @ fields ex) (cause ex)
      | None \<Rightarrow> attrs)"
  by pat_completeness auto
termination
  apply (relation "measure (\<lambda>(a, e). size_option size e)")
   apply simp
  subgoal for attrs err ex
    using As_Error_size[of err ex] by (cases ex) (auto split: option.splits)
  done

definition Fields :: "error option \<Rightarrow> Attr list" where
  "Fields err = Fields_loop [] err"

function DetailsOf_loop :: "detail list \<Rightarrow> error option \<Rightarrow> detail list" where
  "DetailsOf_loop ds None = ds"
| "DetailsOf_loop ds (Some err) =
     (case As_Error err of
        Some ex \<Rightarrow> DetailsOf_loop (ds @ details ex) (cause ex)
      | None \<Rightarrow> ds)"
  by pat_completeness auto
termination
  apply (relation "measure (\<lambda>(a, e). size_option size e)")
   apply simp
  subgoal for ds err ex
    using As_Error_size[of err ex] by (cases ex) (auto split: option.splits)
  done

definition DetailsOf :: "error option \<Rightarrow> detail list" where
  "DetailsOf err = DetailsOf_loop [] err"

subsection \<open>The chain of an error\<close>

text \<open>
  The chain that \<^verbatim>\<open>errors.Unwrap\<close> walks: \<open>err\<close>, then what it unwraps to, and so on
  until an error does not unwrap. \<open>own_code\<close>, \<open>own_fields\<close> and \<open>own_details\<close> read
  what one node of the chain carries itself: the struct fields of an \<^verbatim>\<open>*Error\<close>, the
  code of a sentinel or of a foreign \<^verbatim>\<open>Coder\<close>, and nothing else.
\<close>

lemma errors_Unwrap_size: "errors_Unwrap err = Some n \<Longrightarrow> size n < size err"
proof (cases err)
  case (ErrxError e)
  assume "errors_Unwrap err = Some n"
  with ErrxError show ?thesis by (cases e) (simp add: Error_Unwrap_def)
qed auto

function chain :: "error \<Rightarrow> error list" where
  "chain err = err # (case errors_Unwrap err of None \<Rightarrow> [] | Some n \<Rightarrow> chain n)"
  by pat_completeness auto
termination
  by (relation "measure size") (auto dest: errors_Unwrap_size)

declare chain.simps [simp del]

fun own_code :: "error \<Rightarrow> Code" where
  "own_code (ErrxError e) = code e"
| "own_code (Sentinel m c) = c"
| "own_code (Foreign m c u) = (case c of Some c' \<Rightarrow> c' | None \<Rightarrow> '''')"

fun own_fields :: "error \<Rightarrow> Attr list" where
  "own_fields (ErrxError e) = fields e"
| "own_fields (Sentinel m c) = []"
| "own_fields (Foreign m c u) = []"

fun own_details :: "error \<Rightarrow> detail list" where
  "own_details (ErrxError e) = details e"
| "own_details (Sentinel m c) = []"
| "own_details (Foreign m c u) = []"

section \<open>Detail conversion shared by the gRPC and Connect adapters\<close>

text \<open>
  \<^verbatim>\<open>toProtoDetail\<close> has the same body in package gerr (returning a
  \<^verbatim>\<open>protoadapt.MessageV1\<close>) and in package cerr (returning a \<^verbatim>\<open>proto.Message\<close>):
  the four canonical structs become their \<^verbatim>\<open>errdetails\<close> message, a value that is a
  protocol buffer message already is passed through, anything else is nil.
\<close>

fun toProtoDetail :: "detail \<Rightarrow> proto option" where
  "toProtoDetail (BadRequestDetail vs) =
     Some (pb_BadRequest (map (\<lambda>fv. case fv of BadRequestFieldViolation f d \<Rightarrow> (f, d)) vs))"
| "toProtoDetail (PreconditionFailureDetail vs) =
     Some (pb_PreconditionFailure
             (map (\<lambda>pv. case pv of PreconditionViolation t s d \<Rightarrow> (t, s, d)) vs))"
| "toProtoDetail (ResourceInfoDetail rt rn ow ds) = Some (pb_ResourceInfo rt rn ow ds)"
| "toProtoDetail (ErrorInfoDetail r d md) = Some (pb_ErrorInfo r d md)"
| "toProtoDetail (ProtoMessage pm) = Some pm"
| "toProtoDetail (OtherDetail v) = None"

section \<open>The gRPC adapter (package gerr)\<close>

text \<open>
  \<^verbatim>\<open>status.Status\<close> of google.golang.org/grpc through the methods the adapter calls.
  A nil \<^verbatim>\<open>*Status\<close> is \<open>None\<close>: its \<^verbatim>\<open>Code()\<close> is OK and its message empty.
  \<^verbatim>\<open>WithDetails\<close> fails on an OK status and when a detail cannot be marshalled;
  \<^verbatim>\<open>Details()\<close> returns, for each detail, the decoded message or the decoding error.
\<close>

definition status_New :: "codes_Code \<Rightarrow> string \<Rightarrow> status_Status" where
  "status_New c m = \<lparr> status_code = c, status_message = m, status_details = [] \<rparr>"

definition Status_Code :: "status_Status option \<Rightarrow> codes_Code" where
  "Status_Code st = (case st of None \<Rightarrow> codes_OK | Some s \<Rightarrow> status_code s)"

definition Status_Message :: "status_Status option \<Rightarrow> string" where
  "Status_Message st = (case st of None \<Rightarrow> '''' | Some s \<Rightarrow> status_message s)"

fun marshal_all :: "(proto \<Rightarrow> Any option) \<Rightarrow> proto list \<Rightarrow> Any list option" where
  "marshal_all anypb_New [] = Some []"
| "marshal_all anypb_New (d # ds) =
     (case anypb_New d of
        None \<Rightarrow> None
      | Some m \<Rightarrow> (case marshal_all anypb_New ds of None \<Rightarrow> None | Some ms \<Rightarrow> Some (m # ms)))"

definition Status_WithDetails ::
  "(proto \<Rightarrow> Any option) \<Rightarrow> status_Status \<Rightarrow> proto list \<Rightarrow> status_Status option"
where
  "Status_WithDetails anypb_New s ds =
     (if status_code s = codes_OK then None
      else case marshal_all anypb_New ds of
             None \<Rightarrow> None
           | Some ms \<Rightarrow> Some (s\<lparr> status_details := status_details s @ ms \<rparr>))"

definition Status_Details :: "(Any \<Rightarrow> string + proto) \<Rightarrow> status_Status option \<Rightarrow> detail list" where
  "Status_Details UnmarshalNew st =
     (case st of
        None \<Rightarrow> []
      | Some s \<Rightarrow>
          map (\<lambda>a. case UnmarshalNew a of Inl e \<Rightarrow> OtherDetail e | Inr m \<Rightarrow> ProtoMessage m)
              (status_details s))"

definition ToStatus :: "(proto \<Rightarrow> Any option) \<Rightarrow> error option \<Rightarrow> status_Status" where
  "ToStatus anypb_New err =
     (case err of
        None \<Rightarrow> status_New codes_OK ''''
      | Some e \<Rightarrow>
          (let c = CodeOf err;
               st = status_New (ToGRPCCode c) (error_Error e);
               protoDetails = List.map_filter toProtoDetail (DetailsOf err)
           in if length protoDetails > 0
              then (case Status_WithDetails anypb_New st protoDetails of
                      Some withDetails \<Rightarrow> withDetails
                    | None \<Rightarrow> st)
              else st))"

definition FromStatus :: "(Any \<Rightarrow> string + proto) \<Rightarrow> status_Status option \<Rightarrow> Error option" where
  "FromStatus UnmarshalNew st =
     (if Status_Code st = codes_OK then None
      else
        (let err = Error_WithCode (New (Status_Message st) []) (gerr_ToErrxCode (Status_Code st));
             ds = Status_Details UnmarshalNew st
         in if length ds > 0 then Some (Error_WithDetails err ds) else Some err))"

section \<open>The Connect adapter (package cerr)\<close>

text \<open>
  \<^verbatim>\<open>connect.Error\<close> through the methods the adapter calls: \<^verbatim>\<open>NewError\<close> keeps the
  code and the underlying error, \<^verbatim>\<open>Message()\<close> is the underlying error's text (empty
  without one), \<^verbatim>\<open>NewErrorDetail\<close> packs a message, \<^verbatim>\<open>AddDetail\<close> appends, and
  \<^verbatim>\<open>Value()\<close> of a detail unpacks it.
\<close>

datatype connect_Error =
  connect_Error (ce_code: connect_Code) (ce_err: "error option") (ce_details: "Any list")

definition connect_NewError :: "connect_Code \<Rightarrow> error option \<Rightarrow> connect_Error" where
  "connect_NewError c underlying = connect_Error c underlying []"

definition connect_Error_Message :: "connect_Error \<Rightarrow> string" where
  "connect_Error_Message ce = (case ce_err ce of None \<Rightarrow> '''' | Some e \<Rightarrow> error_Error e)"

definition connect_Error_AddDetail :: "connect_Error \<Rightarrow> Any \<Rightarrow> connect_Error" where
  "connect_Error_AddDetail ce d = connect_Error (ce_code ce) (ce_err ce) (ce_details ce @ [d])"

definition ToConnectError_step :: "(proto \<Rightarrow> Any option) \<Rightarrow> connect_Error \<Rightarrow> detail \<Rightarrow> connect_Error"
where
  "ToConnectError_step anypb_New ce d =
     (case toProtoDetail d of
        None \<Rightarrow> ce
      | Some pm \<Rightarrow>
          (case anypb_New pm of
             None \<Rightarrow> ce
           | Some detail' \<Rightarrow> connect_Error_AddDetail ce detail'))"

definition ToConnectError :: "(proto \<Rightarrow> Any option) \<Rightarrow> error option \<Rightarrow> connect_Error option" where
  "ToConnectError anypb_New err =
     (if err = None then None
      else
        (let c = CodeOf err;
             ce = connect_NewError (ToConnectCode c) err
         in Some (foldl (ToConnectError_step anypb_New) ce (DetailsOf err))))"

definition FromConnectError_step :: "(Any \<Rightarrow> string + proto) \<Rightarrow> detail list \<Rightarrow> Any \<Rightarrow> detail list"
where
  "FromConnectError_step UnmarshalNew ds d =
     (case UnmarshalNew d of Inl valErr \<Rightarrow> ds | Inr v \<Rightarrow> ds @ [ProtoMessage v])"

definition FromConnectError ::
  "(Any \<Rightarrow> string + proto) \<Rightarrow> connect_Error option \<Rightarrow> Error option"
where
  "FromConnectError UnmarshalNew err =
     (case err of
        None \<Rightarrow> None
      | Some ce \<Rightarrow>
          (let ex = Error_WithCode (New (connect_Error_Message ce) []) (cerr_ToErrxCode (ce_code ce));
               ds = foldl (FromConnectError_step UnmarshalNew) [] (ce_details ce)
           in if length ds > 0 then Some (Error_WithDetails ex ds) else Some ex))"

section \<open>The HTTP adapter (package herr)\<close>

text \<open>
  \<^verbatim>\<open>http.StatusText\<close> of net/http: the reason phrase of a status, empty for a status
  the standard library does not name (499 among them).
\<close>

definition http_StatusText :: "int \<Rightarrow> string" where
  "http_StatusText status =
     (case map_of
        [(100, ''Continue''), (101, ''Switching Protocols''), (102, ''Processing''),
         (103, ''Early Hints''),
         (200, ''OK''), (201, ''Created''), (202, ''Accepted''),
         (203, ''Non-Authoritative Information''), (204, ''No Content''),
         (205, ''Reset Content''), (206, ''Partial Content''), (207, ''Multi-Status''),
         (208, ''Already Reported''), (226, ''IM Used''),
         (300, ''Multiple Choices''), (301, ''Moved Permanently''), (302, ''Found''),
         (303, ''See Other''), (304, ''Not Modified''), (305, ''Use Proxy''),
         (307, ''Temporary Redirect''), (308, ''Permanent Redirect''),
         (400, ''Bad Request''), (401, ''Unauthorized''), (402, ''Payment Required''),
         (403, ''Forbidden''), (404, ''Not Found''), (405, ''Method Not Allowed''),
         (406, ''Not Acceptable''), (407, ''Proxy Authentication Required''),
         (408, ''Request Timeout''), (409, ''Conflict''), (410, ''Gone''),
         (411, ''Length Required''), (412, ''Precondition Failed''),
         (413, ''Request Entity Too Large''), (414, ''Request URI Too Long''),
         (415, ''Unsupported Media Type''), (416, ''Requested Range Not Satisfiable''),
         (417, ''Expectation Failed''), (418, ''I'' @ [CHR 0x27] @ ''m a teapot''),
         (421, ''Misdirected Request''), (422, ''Unprocessable Entity''), (423, ''Locked''),
         (424, ''Failed Dependency''), (425, ''Too Early''), (426, ''Upgrade Required''),
         (428, ''Precondition Required''), (429, ''Too Many Requests''),
         (431, ''Request Header Fields Too Large''),
         (451, ''Unavailable For Legal Reasons''),
         (500, ''Internal Server Error''), (501, ''Not Implemented''), (502, ''Bad Gateway''),
         (503, ''Service Unavailable''), (504, ''Gateway Timeout''),
         (505, ''HTTP Version Not Supported''), (506, ''Variant Also Negotiates''),
         (507, ''Insufficient Storage''), (508, ''Loop Detected''), (510, ''Not Extended''),
         (511, ''Network Authentication Required'')] status
      of Some text \<Rightarrow> text | None \<Rightarrow> '''')"

type_synonym ProblemDetailOption = "ProblemDetail \<Rightarrow> ProblemDetail"

definition WithInstance :: "string \<Rightarrow> ProblemDetailOption" where
  "WithInstance instance' = (\<lambda>p. p\<lparr> Instance := instance' \<rparr>)"

definition WithType :: "string \<Rightarrow> ProblemDetailOption" where
  "WithType typeURI = (\<lambda>p. p\<lparr> Type := typeURI \<rparr>)"

fun toDetailJSON :: "detail \<Rightarrow> (string \<times> json) list option" where
  "toDetailJSON (BadRequestDetail vs) =
     Some [(''type'', JString ''BadRequest''),
           (''violations'', JArray (map (\<lambda>fv. case fv of BadRequestFieldViolation f d \<Rightarrow>
              JObject [(''field'', JString f), (''description'', JString d)]) vs))]"
| "toDetailJSON (PreconditionFailureDetail vs) =
     Some [(''type'', JString ''PreconditionFailure''),
           (''violations'', JArray (map (\<lambda>pv. case pv of PreconditionViolation t s d \<Rightarrow>
              JObject [(''type'', JString t), (''subject'', JString s),
                       (''description'', JString d)]) vs))]"
| "toDetailJSON (ResourceInfoDetail rt rn ow ds) =
     Some [(''type'', JString ''ResourceInfo''),
           (''resource_type'', JString rt),
           (''resource_name'', JString rn),
           (''owner'', JString ow),
           (''description'', JString ds)]"
| "toDetailJSON (ErrorInfoDetail r d md) =
     Some [(''type'', JString ''ErrorInfo''),
           (''reason'', JString r),
           (''domain'', JString d),
           (''metadata'', JObject (map (\<lambda>(k, v). (k, JString v)) md))]"
| "toDetailJSON (ProtoMessage pm) = None"
| "toDetailJSON (OtherDetail v) = None"

definition ToProblemDetail ::
  "tables \<Rightarrow> error option \<Rightarrow> ProblemDetailOption list \<Rightarrow> ProblemDetail option"
where
  "ToProblemDetail t err opts =
     (case err of
        None \<Rightarrow> None
      | Some e \<Rightarrow>
          (let c = CodeOf err;
               status = ToHTTPStatus t c;
               code' = (if c = '''' then Unknown else c);
               title = (if http_StatusText status = '''' then code' else http_StatusText status);
               p = \<lparr> Type = ''about:blank'', Title = title, Status = status,
                     Detail = error_Error e, Instance = '''', Code = code',
                     Errors = List.map_filter toDetailJSON (DetailsOf err),
                     LocalizedMessage = None \<rparr>
           in Some (foldl (\<lambda>p opt. opt p) p opts)))"

definition FromProblemDetail :: "tables \<Rightarrow> ProblemDetail option \<Rightarrow> Error option" where
  "FromProblemDetail t p =
     (case p of
        None \<Rightarrow> None
      | Some pd \<Rightarrow>
          (let code' = (if Code pd = '''' then herr_ToErrxCode t (Status pd) else Code pd)
           in Some (Error_WithCode (New (Detail pd) []) code')))"

text \<open>
  The \<^verbatim>\<open>http.ResponseWriter\<close> as the state that the handler changes: the header map,
  the status once \<^verbatim>\<open>WriteHeader\<close> has been called (a first \<^verbatim>\<open>Write\<close> sets 200), and
  the bytes written. \<^verbatim>\<open>json.Marshal\<close> is a parameter, \<open>None\<close> when it fails.
  \<^verbatim>\<open>writeProblemDetail\<close> with a nil pointer would dereference it and panic, which is
  the result \<open>None\<close>.
\<close>

definition Header_Set :: "string \<Rightarrow> string \<Rightarrow> ResponseWriter \<Rightarrow> ResponseWriter" where
  "Header_Set k v w = w\<lparr> rw_header := (rw_header w)(k \<mapsto> v) \<rparr>"

definition WriteHeader :: "int \<Rightarrow> ResponseWriter \<Rightarrow> ResponseWriter" where
  "WriteHeader s w = (case rw_status w of None \<Rightarrow> w\<lparr> rw_status := Some s \<rparr> | Some s' \<Rightarrow> w)"

definition Write :: "string \<Rightarrow> ResponseWriter \<Rightarrow> ResponseWriter" where
  "Write b w = (let w' = WriteHeader 200 w in w'\<lparr> rw_body := rw_body w' @ b \<rparr>)"

definition writeProblemDetail ::
  "(ProblemDetail option \<Rightarrow> string option) \<Rightarrow> ResponseWriter \<Rightarrow> ProblemDetail option
     \<Rightarrow> ResponseWriter option"
where
  "writeProblemDetail json_Marshal w p =
     (case json_Marshal p of
        None \<Rightarrow>
          Some (Write (''{\"type\":\"about:blank\",\"title\":\"Internal Server Error\",\"status\":500}''
                        @ [CHR 0x0A])
                 (WriteHeader http_StatusInternalServerError
                   (Header_Set ''Content-Type'' ''application/problem+json'' w)))
      | Some b \<Rightarrow>
          (case p of
             None \<Rightarrow> None
           | Some pd \<Rightarrow>
               Some (Write [CHR 0x0A]
                      (Write b
                        (WriteHeader (Status pd)
                          (Header_Set ''Content-Type'' ''application/problem+json'' w))))))"

definition WriteError ::
  "(ProblemDetail option \<Rightarrow> string option) \<Rightarrow> tables \<Rightarrow> ResponseWriter \<Rightarrow> error option
     \<Rightarrow> ProblemDetailOption list \<Rightarrow> ResponseWriter option"
where
  "WriteError json_Marshal t w err opts =
     (if err = None then Some w
      else writeProblemDetail json_Marshal w (ToProblemDetail t err opts))"

section \<open>Locale resolution (package errx, locale.go)\<close>

text \<open>
  \<^verbatim>\<open>language.ParseAcceptLanguage\<close> of golang.org/x/text is a parameter: for a header
  value it returns the tags, their weights and an error (\<open>None\<close> for nil). A tag is
  known by what its \<^verbatim>\<open>String()\<close> renders. The \<^verbatim>\<open>float32\<close> weights are compared,
  never computed with, and the library parses them from decimal text, so they are
  modelled as reals (no NaN takes part).
\<close>

type_synonym float32 = real

datatype Tag = Tag string

fun Tag_String :: "Tag \<Rightarrow> string" where
  "Tag_String (Tag s) = s"

text \<open>
  The loop \<^verbatim>\<open>for i := 1; i < len(tags); i++\<close> with the variable \<^verbatim>\<open>best\<close>. Indexing
  \<^verbatim>\<open>qs\<close> out of range panics in Go: that is the result \<open>None\<close>.
\<close>

function best_loop :: "float32 list \<Rightarrow> nat \<Rightarrow> nat \<Rightarrow> nat \<Rightarrow> nat option" where
  "best_loop qs n i best =
     (if i < n
      then (if i < length qs \<and> best < length qs
            then best_loop qs n (i + 1) (if qs ! i > qs ! best then i else best)
            else None)
      else Some best)"
  by pat_completeness auto
termination
  by (relation "measure (\<lambda>(qs, n, i, best). n - i)") auto

declare best_loop.simps [simp del]

definition ParseAcceptLanguage ::
  "(string \<Rightarrow> Tag list \<times> float32 list \<times> string option) \<Rightarrow> string \<Rightarrow> string option"
where
  "ParseAcceptLanguage language_ParseAcceptLanguage s =
     (case language_ParseAcceptLanguage s of
        (tags, qs, err) \<Rightarrow>
          if err \<noteq> None \<or> length tags = 0 then Some ''''
          else (case best_loop qs (length tags) 1 0 of
                  None \<Rightarrow> None
                | Some best \<Rightarrow>
                    if best < length tags then Some (Tag_String (tags ! best)) else None))"

text \<open>
  A stand-in for the library on four header values (what it returns for them), to run
  \<open>ParseAcceptLanguage\<close> on concrete input.
\<close>

definition demo_parse :: "string \<Rightarrow> Tag list \<times> float32 list \<times> string option" where
  "demo_parse s =
     (if s = ''ja,en-US;q=0.9,en;q=0.8''
        then ([Tag ''ja'', Tag ''en-US'', Tag ''en''], [1, 0.9, 0.8], None)
      else if s = ''en;q=0.8,ja;q=0.9,fr;q=0.9''
        then ([Tag ''en'', Tag ''ja'', Tag ''fr''], [0.8, 0.9, 0.9], None)
      else if s = '''' then ([], [], None)
      else ([], [], Some ''language: tag is not well-formed''))"

section \<open>The mutators in the store (package errx)\<close>

definition nil_slice :: slice where
  "nil_slice = \<lparr> sl_array = None, sl_len = 0, sl_cap = 0 \<rparr>"

text \<open>Reading a slice: the first \<open>sl_len\<close> elements of its backing array.\<close>

definition read_slice :: "'a list list \<Rightarrow> slice \<Rightarrow> 'a list" where
  "read_slice arrs s =
     (case sl_array s of
        None \<Rightarrow> []
      | Some a \<Rightarrow> if a < length arrs then take (sl_len s) (arrs ! a) else [])"

text \<open>
  Go's built-in \<^verbatim>\<open>append(s, xs...)\<close>. When the capacity suffices the elements are
  written into the backing array of \<open>s\<close>, behind its length, and whoever shares that
  array sees them; otherwise a new array is allocated and the old elements are copied.
  How much capacity the runtime gives a new array is the parameter \<open>growcap\<close> (old
  capacity, needed length), taken to be at least the needed length.
\<close>

definition go_append ::
  "(nat \<Rightarrow> nat \<Rightarrow> nat) \<Rightarrow> 'a list list \<Rightarrow> slice \<Rightarrow> 'a list \<Rightarrow> slice \<times> 'a list list"
where
  "go_append growcap arrs s xs =
     (if sl_len s + length xs \<le> sl_cap s
      then (case sl_array s of
              None \<Rightarrow> (s, arrs)
            | Some a \<Rightarrow>
                (s\<lparr> sl_len := sl_len s + length xs \<rparr>,
                 arrs[a := take (sl_len s) (arrs ! a) @ xs
                            @ drop (sl_len s + length xs) (arrs ! a)]))
      else (\<lparr> sl_array = Some (length arrs),
               sl_len = sl_len s + length xs,
               sl_cap = max (sl_len s + length xs) (growcap (sl_cap s) (sl_len s + length xs)) \<rparr>,
            arrs @ [read_slice arrs s @ xs]))"

text \<open>
  The four mutators: \<^verbatim>\<open>cp := *e\<close> copies the struct at \<open>e\<close> (a nil or dangling
  \<open>e\<close> panics: \<open>None\<close>), one field of the copy is replaced, and \<^verbatim>\<open>&cp\<close> is a newly
  allocated struct. \<^verbatim>\<open>With\<close> and \<^verbatim>\<open>WithDetails\<close> build the new slice by appending
  the old elements to a nil slice first. The appended elements are read from a slice of
  the caller's (the variadic arguments, or the temporary result of \<^verbatim>\<open>argsToAttrs\<close>):
  they enter as a list of values.
\<close>

definition heap_With ::
  "(nat \<Rightarrow> nat \<Rightarrow> nat) \<Rightarrow> addr \<Rightarrow> any list \<Rightarrow> heap \<Rightarrow> (addr \<times> heap) option"
where
  "heap_With growcap e args h =
     (if e < length (h_nodes h)
      then
        (let cp = h_nodes h ! e;
             (s1, arrs1) = go_append growcap (h_attrs h) nil_slice
                             (read_slice (h_attrs h) (n_fields (h_nodes h ! e)));
             (s2, arrs2) = go_append growcap arrs1 s1 (argsToAttrs args);
             cp = cp\<lparr> n_fields := s2 \<rparr>
         in Some (length (h_nodes h), h\<lparr> h_nodes := h_nodes h @ [cp], h_attrs := arrs2 \<rparr>))
      else None)"

definition heap_WithCode :: "addr \<Rightarrow> Code \<Rightarrow> heap \<Rightarrow> (addr \<times> heap) option" where
  "heap_WithCode e c h =
     (if e < length (h_nodes h)
      then
        (let cp = h_nodes h ! e;
             cp = cp\<lparr> n_code := c \<rparr>
         in Some (length (h_nodes h), h\<lparr> h_nodes := h_nodes h @ [cp] \<rparr>))
      else None)"

definition heap_WithDetails ::
  "(nat \<Rightarrow> nat \<Rightarrow> nat) \<Rightarrow> addr \<Rightarrow> detail list \<Rightarrow> heap \<Rightarrow> (addr \<times> heap) option"
where
  "heap_WithDetails growcap e ds h =
     (if e < length (h_nodes h)
      then
        (let cp = h_nodes h ! e;
             (s1, arrs1) = go_append growcap (h_details h) nil_slice
                             (read_slice (h_details h) (n_details (h_nodes h ! e)));
             (s2, arrs2) = go_append growcap arrs1 s1 ds;
             cp = cp\<lparr> n_details := s2 \<rparr>
         in Some (length (h_nodes h), h\<lparr> h_nodes := h_nodes h @ [cp], h_details := arrs2 \<rparr>))
      else None)"

definition heap_WithStack :: "Stack \<Rightarrow> addr \<Rightarrow> heap \<Rightarrow> (addr \<times> heap) option" where
  "heap_WithStack captured e h =
     (if e < length (h_nodes h)
      then
        (let cp = h_nodes h ! e;
             cp = cp\<lparr> n_stack := Some (length (h_stacks h)) \<rparr>
         in Some (length (h_nodes h),
                  h\<lparr> h_nodes := h_nodes h @ [cp], h_stacks := h_stacks h @ [captured] \<rparr>))
      else None)"

text \<open>
  The constructors in the store. The slice that \<^verbatim>\<open>argsToAttrs\<close> returns becomes the
  \<open>fields\<close> of the new struct; it is built by appending to a nil slice, so it lies in
  an array of its own. \<^verbatim>\<open>Wrap\<close> returns nil for a nil cause.
\<close>

definition empty_heap :: heap where
  "empty_heap = \<lparr> h_nodes = [], h_attrs = [], h_details = [], h_stacks = [] \<rparr>"

definition heap_New :: "(nat \<Rightarrow> nat \<Rightarrow> nat) \<Rightarrow> string \<Rightarrow> any list \<Rightarrow> heap \<Rightarrow> addr \<times> heap" where
  "heap_New growcap m args h =
     (let (s, arrs) = go_append growcap (h_attrs h) nil_slice (argsToAttrs args);
          nd = \<lparr> n_msg = m, n_cause = NilError, n_code = '''', n_fields = s,
                 n_stack = None, n_details = nil_slice \<rparr>
      in (length (h_nodes h), h\<lparr> h_nodes := h_nodes h @ [nd], h_attrs := arrs \<rparr>))"

definition heap_Wrap ::
  "(nat \<Rightarrow> nat \<Rightarrow> nat) \<Rightarrow> iface \<Rightarrow> any list \<Rightarrow> heap \<Rightarrow> (addr \<times> heap) option"
where
  "heap_Wrap growcap err args h =
     (if err = NilError then None
      else
        (let (s, arrs) = go_append growcap (h_attrs h) nil_slice (argsToAttrs args);
             nd = \<lparr> n_msg = '''', n_cause = err, n_code = '''', n_fields = s,
                    n_stack = None, n_details = nil_slice \<rparr>
         in Some (length (h_nodes h), h\<lparr> h_nodes := h_nodes h @ [nd], h_attrs := arrs \<rparr>)))"

text \<open>
  What a node shows to a reader: message, code, the fields and details read through its
  slices, and the stack behind its pointer. A store is well formed when every slice of
  every node points to an allocated array that holds at least its length, and every
  stack pointer is allocated.
\<close>

definition view_of :: "heap \<Rightarrow> addr \<Rightarrow> view" where
  "view_of h a =
     (let nd = h_nodes h ! a
      in \<lparr> v_msg = n_msg nd, v_code = n_code nd,
            v_fields = read_slice (h_attrs h) (n_fields nd),
            v_details = read_slice (h_details h) (n_details nd),
            v_stack = (case n_stack nd of None \<Rightarrow> None | Some p \<Rightarrow> Some (h_stacks h ! p)) \<rparr>)"

definition wf_slice_from :: "nat \<Rightarrow> 'a list list \<Rightarrow> slice \<Rightarrow> bool" where
  "wf_slice_from n0 arrs s =
     (case sl_array s of
        None \<Rightarrow> sl_len s = 0 \<and> sl_cap s = 0
      | Some a \<Rightarrow> n0 \<le> a \<and> a < length arrs \<and> sl_len s \<le> length (arrs ! a))"

definition wf_node :: "heap \<Rightarrow> node \<Rightarrow> bool" where
  "wf_node h nd =
     (wf_slice_from 0 (h_attrs h) (n_fields nd) \<and>
      wf_slice_from 0 (h_details h) (n_details nd) \<and>
      (case n_stack nd of None \<Rightarrow> True | Some p \<Rightarrow> p < length (h_stacks h)))"

definition wf_heap :: "heap \<Rightarrow> bool" where
  "wf_heap h = list_all (wf_node h) (h_nodes h)"

text \<open>
  \<open>unchanged h h'\<close>: every struct, backing array and stack of \<open>h\<close> is in \<open>h'\<close> at
  the same address with the same content; \<open>h'\<close> may hold more.
\<close>

definition unchanged :: "heap \<Rightarrow> heap \<Rightarrow> bool" where
  "unchanged h h' =
     (take (length (h_nodes h)) (h_nodes h') = h_nodes h \<and>
      take (length (h_attrs h)) (h_attrs h') = h_attrs h \<and>
      take (length (h_details h)) (h_details h') = h_details h \<and>
      take (length (h_stacks h)) (h_stacks h') = h_stacks h)"

text \<open>
  A store with one published node: message \<open>inner\<close>, one field \<open>k = 1\<close> in a
  backing array that has spare capacity, no details, no stack, and a cause of another
  type.
\<close>

definition demo_heap :: heap where
  "demo_heap =
     \<lparr> h_nodes = [\<lparr> n_msg = ''inner'', n_cause = OtherError 0, n_code = '''',
                    n_fields = \<lparr> sl_array = Some 0, sl_len = 1, sl_cap = 4 \<rparr>,
                    n_stack = None, n_details = nil_slice \<rparr>],
       h_attrs = [[Attr ''k'' (AnyInt 1)]],
       h_details = [],
       h_stacks = [] \<rparr>"

section \<open>Properties of the code taxonomy\<close>

lemma grpcToErrx_None: "16 < c \<Longrightarrow> grpcToErrx c = None"
  by (auto simp: grpcToErrx_def codes_defs)

lemma connectToErrx_None: "16 < c \<Longrightarrow> connectToErrx c = None"
  by (auto simp: connectToErrx_def connect_defs)

text \<open>
  Claim C10. On the gRPC and Connect reverse mappings the status code 0 (\<^verbatim>\<open>codes.OK\<close>,
  the zero \<^verbatim>\<open>connect.Code\<close>) maps to the empty code, not to \<open>unknown\<close>, while every
  status code with no entry in the reverse table maps to \<open>unknown\<close>; the codes above 16
  are such codes.
\<close>

theorem ToErrxCode_OK_empty:
  "gerr_ToErrxCode codes_OK = '''' \<and> cerr_ToErrxCode 0 = '''' \<and>
   (\<forall>c. grpcToErrx c = None \<longrightarrow> gerr_ToErrxCode c = Unknown) \<and>
   (\<forall>c. connectToErrx c = None \<longrightarrow> cerr_ToErrxCode c = Unknown) \<and>
   (\<forall>c. 16 < c \<longrightarrow> gerr_ToErrxCode c = Unknown \<and> cerr_ToErrxCode c = Unknown)"
proof -
  have a: "gerr_ToErrxCode codes_OK = ''''"
    by (simp add: gerr_ToErrxCode_def grpcToErrx_def codes_defs)
  have b: "cerr_ToErrxCode 0 = ''''"
    by (simp add: cerr_ToErrxCode_def connectToErrx_def)
  have c: "\<forall>c. grpcToErrx c = None \<longrightarrow> gerr_ToErrxCode c = Unknown"
    by (simp add: gerr_ToErrxCode_def)
  have d: "\<forall>c. connectToErrx c = None \<longrightarrow> cerr_ToErrxCode c = Unknown"
    by (simp add: cerr_ToErrxCode_def)
  have e: "\<forall>c. 16 < c \<longrightarrow> gerr_ToErrxCode c = Unknown \<and> cerr_ToErrxCode c = Unknown"
    by (simp add: gerr_ToErrxCode_def cerr_ToErrxCode_def grpcToErrx_None connectToErrx_None)
  from a b c d e show ?thesis by blast
qed

theorem ToErrxCode_OK_empty_witness:
  "grpcToErrx 17 = None \<and> gerr_ToErrxCode 17 = ''unknown'' \<and>
   connectToErrx 99 = None \<and> cerr_ToErrxCode 99 = ''unknown'' \<and>
   (16 :: 32 word) < 17 \<and> (16 :: 32 word) < 99 \<and>
   gerr_ToErrxCode 0 = '''' \<and> cerr_ToErrxCode 0 = ''''"
proof -
  have g: "grpcToErrx 17 = None" by (simp add: grpcToErrx_def codes_defs)
  have h: "connectToErrx 99 = None" by (simp add: connectToErrx_def connect_defs)
  have u: "Unknown = ''unknown''" "codes_OK = 0" by (simp_all add: Unknown_def codes_OK_def)
  have l: "(16 :: 32 word) < 17" "(16 :: 32 word) < 99" by simp_all
  from ToErrxCode_OK_empty g h l show ?thesis unfolding u by blast
qed

lemma httpToErrx_init:
  "httpToErrx init_tables = map_of
       [(400, ''invalid_argument''), (401, ''unauthenticated''), (403, ''permission_denied''),
        (404, ''not_found''), (409, ''already_exists''), (412, ''failed_precondition''),
        (429, ''resource_exhausted''), (499, ''canceled''), (500, ''internal''),
        (501, ''unimplemented''), (503, ''unavailable''), (504, ''deadline_exceeded'')]"
  by (simp add: init_tables_def code_defs)

lemma errxToHTTP_init:
  "errxToHTTP init_tables = map_of
       [(''invalid_argument'', 400), (''out_of_range'', 400), (''unauthenticated'', 401),
        (''permission_denied'', 403), (''not_found'', 404), (''already_exists'', 409),
        (''aborted'', 409), (''failed_precondition'', 412), (''resource_exhausted'', 429),
        (''canceled'', 499), (''internal'', 500), (''unknown'', 500), (''data_loss'', 500),
        (''unimplemented'', 501), (''unavailable'', 503), (''deadline_exceeded'', 504)]"
  by (simp add: init_tables_def code_defs)

lemma httpToErrx_entries_forward:
  "\<forall>(s, c) \<in> set
       [(400, ''invalid_argument''), (401, ''unauthenticated''), (403, ''permission_denied''),
        (404, ''not_found''), (409, ''already_exists''), (412, ''failed_precondition''),
        (429, ''resource_exhausted''), (499, ''canceled''), (500, ''internal''),
        (501, ''unimplemented''), (503, ''unavailable''), (504, ''deadline_exceeded'')].
     errxToHTTP init_tables c = Some s"
  unfolding errxToHTTP_init by simp

lemma httpToErrx_right_inverse:
  assumes "httpToErrx init_tables s = Some c"
  shows "errxToHTTP init_tables c = Some s"
proof -
  from assms have "(s, c) \<in> set
       [(400, ''invalid_argument''), (401, ''unauthenticated''), (403, ''permission_denied''),
        (404, ''not_found''), (409, ''already_exists''), (412, ''failed_precondition''),
        (429, ''resource_exhausted''), (499, ''canceled''), (500, ''internal''),
        (501, ''unimplemented''), (503, ''unavailable''), (504, ''deadline_exceeded'')]"
    unfolding httpToErrx_init by (rule map_of_SomeD)
  with httpToErrx_entries_forward show ?thesis by blast
qed

lemma http_round_trip_well_known:
  "c \<in> set well_known_codes \<Longrightarrow>
   herr_ToErrxCode init_tables (ToHTTPStatus init_tables c) =
     (if c = OutOfRange then InvalidArgument
      else if c = Aborted then AlreadyExists
      else if c = Unknown \<or> c = DataLoss then Internal
      else c)"
  unfolding herr_ToErrxCode_def ToHTTPStatus_def httpToErrx_init errxToHTTP_init
    well_known_codes_def code_defs http_StatusInternalServerError_def
  by auto

text \<open>
  Claim C2, as stated, fails: the forward table sends \<open>out_of_range\<close> and
  \<open>invalid_argument\<close> to the same status 400, and the reverse table sends 400 back to
  \<open>invalid_argument\<close>, so \<open>out_of_range\<close> does not round-trip.
\<close>

theorem http_round_trip_counterexample:
  "OutOfRange \<in> set well_known_codes \<and>
   ToHTTPStatus init_tables OutOfRange = 400 \<and>
   herr_ToErrxCode init_tables (ToHTTPStatus init_tables OutOfRange) = InvalidArgument \<and>
   InvalidArgument \<noteq> OutOfRange"
  by (simp add: herr_ToErrxCode_def ToHTTPStatus_def httpToErrx_init errxToHTTP_init
      well_known_codes_def code_defs)

text \<open>
  Claim C2, amended. Of the sixteen well-known codes, the twelve that own a reverse entry
  (\<open>canceled\<close> with status 499 among them) round-trip through the HTTP status; the four
  that share a status with another code come back as that status's reverse entry
  (\<open>out_of_range\<close> as \<open>invalid_argument\<close>, \<open>aborted\<close> as \<open>already_exists\<close>,
  \<open>unknown\<close> and \<open>data_loss\<close> as \<open>internal\<close>). Every reverse entry is the mirror
  of a forward entry, so every listed status round-trips, and a status with no reverse
  entry maps to \<open>unknown\<close>.
\<close>

theorem http_round_trip:
  "(\<forall>c \<in> set well_known_codes.
      herr_ToErrxCode init_tables (ToHTTPStatus init_tables c) =
        (if c = OutOfRange then InvalidArgument
         else if c = Aborted then AlreadyExists
         else if c = Unknown \<or> c = DataLoss then Internal
         else c)) \<and>
   (\<forall>s c. httpToErrx init_tables s = Some c \<longrightarrow>
      errxToHTTP init_tables c = Some s \<and>
      ToHTTPStatus init_tables (herr_ToErrxCode init_tables s) = s) \<and>
   (\<forall>s. httpToErrx init_tables s = None \<longrightarrow> herr_ToErrxCode init_tables s = Unknown)"
proof (intro conjI allI impI ballI)
  fix c assume "c \<in> set well_known_codes"
  then show "herr_ToErrxCode init_tables (ToHTTPStatus init_tables c) =
        (if c = OutOfRange then InvalidArgument
         else if c = Aborted then AlreadyExists
         else if c = Unknown \<or> c = DataLoss then Internal
         else c)"
    by (rule http_round_trip_well_known)
next
  fix s c assume h: "httpToErrx init_tables s = Some c"
  then show "errxToHTTP init_tables c = Some s" by (rule httpToErrx_right_inverse)
  then show "ToHTTPStatus init_tables (herr_ToErrxCode init_tables s) = s"
    using h by (simp add: ToHTTPStatus_def herr_ToErrxCode_def)
next
  fix s assume "httpToErrx init_tables s = None"
  then show "herr_ToErrxCode init_tables s = Unknown"
    by (simp add: herr_ToErrxCode_def)
qed

theorem http_round_trip_witness:
  "Canceled \<in> set well_known_codes \<and>
   herr_ToErrxCode init_tables (ToHTTPStatus init_tables Canceled) = Canceled \<and>
   Aborted \<in> set well_known_codes \<and>
   herr_ToErrxCode init_tables (ToHTTPStatus init_tables Aborted) = AlreadyExists \<and>
   httpToErrx init_tables 499 = Some Canceled \<and>
   ToHTTPStatus init_tables (herr_ToErrxCode init_tables 499) = 499 \<and>
   httpToErrx init_tables 418 = None \<and> herr_ToErrxCode init_tables 418 = Unknown"
proof -
  have m: "Canceled \<in> set well_known_codes" "Aborted \<in> set well_known_codes"
    by (simp_all add: well_known_codes_def)
  have d: "Canceled \<noteq> OutOfRange" "Canceled \<noteq> Aborted" "Canceled \<noteq> Unknown"
    "Canceled \<noteq> DataLoss" "Aborted \<noteq> OutOfRange"
    by (simp_all add: code_defs)
  have t: "httpToErrx init_tables 499 = Some Canceled" "httpToErrx init_tables 418 = None"
    by (simp_all add: httpToErrx_init Canceled_def)
  from http_round_trip m have
    "herr_ToErrxCode init_tables (ToHTTPStatus init_tables Canceled) = Canceled"
    "herr_ToErrxCode init_tables (ToHTTPStatus init_tables Aborted) = AlreadyExists"
    using d by auto
  moreover from http_round_trip t have
    "ToHTTPStatus init_tables (herr_ToErrxCode init_tables 499) = 499"
    "herr_ToErrxCode init_tables 418 = Unknown"
    by blast+
  ultimately show ?thesis using m t by simp
qed

section \<open>Properties of the error chain\<close>

lemma chain_Sentinel: "chain (Sentinel m c) = [Sentinel m c]"
  by (simp add: chain.simps)

lemma chain_Foreign:
  "chain (Foreign m c u) = Foreign m c u # (case u of None \<Rightarrow> [] | Some n \<Rightarrow> chain n)"
  by (simp add: chain.simps)

lemma chain_ErrxError:
  "chain (ErrxError e) = ErrxError e # (case cause e of None \<Rightarrow> [] | Some n \<Rightarrow> chain n)"
  by (simp add: chain.simps Error_Unwrap_def)

lemma As_Coder_chain: "As_Coder err = Some c \<Longrightarrow> set (chain c) \<subseteq> set (chain err)"
  by (induction err rule: As_Coder.induct) (auto simp: chain_Foreign)

text \<open>A code that is returned is the own code of some node of the chain.\<close>

lemma code_in_chain:
  "Error_Code e \<noteq> '''' \<Longrightarrow> Error_Code e \<in> own_code ` set (chain (ErrxError e))"
  "CodeOf eo \<noteq> '''' \<Longrightarrow> \<exists>err. eo = Some err \<and> CodeOf eo \<in> own_code ` set (chain err)"
  "Coder_Code c \<noteq> '''' \<Longrightarrow> Coder_Code c \<in> own_code ` set (chain c)"
proof (induction e and eo and c rule: Error_Code_CodeOf_Coder_Code.induct)
  case (1 e)
  show ?case
  proof (cases "code e = ''''")
    case True
    with 1 obtain err where "cause e = Some err" "CodeOf (cause e) \<in> own_code ` set (chain err)"
      by (auto simp: Error_Code.simps)
    then show ?thesis using True
      by (auto simp: chain_ErrxError Error_Code.simps)
  next
    case False
    then show ?thesis by (auto simp: chain_ErrxError Error_Code.simps)
  qed
next
  case 2
  then show ?case by simp
next
  case (3 err)
  then show ?case using As_Coder_chain[of err]
    by (auto split: option.splits)
next
  case (4 e)
  then show ?case by simp
next
  case (5 m c)
  then show ?case by (simp add: chain_Sentinel)
next
  case (6 m c u)
  then show ?case by (auto simp: chain_Foreign split: option.splits)
qed

lemma Wrap_Code:
  "Wrap (Some err) args = Some w \<Longrightarrow> Error_Code w = CodeOf (Some err)"
  by (auto simp: Wrap_def Error_Code.simps)

lemma New_WithCode_Code: "CodeOf (Some (ErrxError (Error_WithCode (New m args) A))) = A"
  by (simp add: Error_WithCode_def New_def Error_Code.simps)

text \<open>
  Claim C3. \<^verbatim>\<open>Code()\<close> on a node returns the node's own code when that is not
  empty, and otherwise the code that \<^verbatim>\<open>CodeOf\<close> obtains from the cause; it is empty
  when no node of the chain carries a non-empty code. A wrapper built by \<^verbatim>\<open>Wrap\<close>
  has the code of what it wraps, so \<^verbatim>\<open>Wrap(New(m).WithCode(A)).Code()\<close> is \<open>A\<close>, and
  \<^verbatim>\<open>WithCode(B)\<close> on the wrapper, for a code \<open>B\<close> that is set (not empty), gives \<open>B\<close>.
\<close>

theorem Code_resolution:
  "(code e \<noteq> '''' \<longrightarrow> Error_Code e = code e) \<and>
   (code e = '''' \<longrightarrow> Error_Code e = CodeOf (cause e)) \<and>
   ((\<forall>n \<in> set (chain (ErrxError e)). own_code n = '''') \<longrightarrow> Error_Code e = '''') \<and>
   (\<forall>w. Wrap (Some err) args = Some w \<longrightarrow> Error_Code w = CodeOf (Some err)) \<and>
   (\<exists>w. Wrap (Some (ErrxError (Error_WithCode (New m args') A))) args = Some w \<and>
        Error_Code w = A \<and>
        (B \<noteq> '''' \<longrightarrow> Error_Code (Error_WithCode w B) = B))"
proof (intro conjI impI allI)
  assume "code e \<noteq> ''''"
  then show "Error_Code e = code e" by (simp add: Error_Code.simps)
next
  assume "code e = ''''"
  then show "Error_Code e = CodeOf (cause e)" by (simp add: Error_Code.simps)
next
  assume a: "\<forall>n \<in> set (chain (ErrxError e)). own_code n = ''''"
  show "Error_Code e = ''''"
  proof (rule ccontr)
    assume "Error_Code e \<noteq> ''''"
    from code_in_chain(1)[OF this] a show False
      using \<open>Error_Code e \<noteq> ''''\<close> by auto
  qed
next
  fix w assume "Wrap (Some err) args = Some w"
  then show "Error_Code w = CodeOf (Some err)" by (rule Wrap_Code)
next
  let ?inner = "ErrxError (Error_WithCode (New m args') A)"
  obtain w where w: "Wrap (Some ?inner) args = Some w"
    by (simp add: Wrap_def)
  then have "Error_Code w = A"
    using Wrap_Code[OF w] New_WithCode_Code[of m args' A] by simp
  moreover have "B \<noteq> '''' \<longrightarrow> Error_Code (Error_WithCode w B) = B"
    by (simp add: Error_WithCode_def Error_Code.simps)
  ultimately show "\<exists>w. Wrap (Some ?inner) args = Some w \<and> Error_Code w = A \<and>
        (B \<noteq> '''' \<longrightarrow> Error_Code (Error_WithCode w B) = B)"
    using w by blast
qed

theorem Code_resolution_witness:
  "code (Error ''ctx'' (Some (Sentinel ''gone'' NotFound)) '''' [] None []) = '''' \<and>
   Error_Code (Error ''ctx'' (Some (Sentinel ''gone'' NotFound)) '''' [] None []) = NotFound \<and>
   code (Error ''ctx'' (Some (Sentinel ''gone'' NotFound)) Internal [] None []) \<noteq> '''' \<and>
   Error_Code (Error ''ctx'' (Some (Sentinel ''gone'' NotFound)) Internal [] None []) = Internal \<and>
   map own_code (chain (ErrxError (Error ''ctx'' (Some (Foreign ''boom'' None None)) '''' [] None [])))
     = ['''', ''''] \<and>
   Error_Code (Error ''ctx'' (Some (Foreign ''boom'' None None)) '''' [] None []) = '''' \<and>
   Wrap (Some (Sentinel ''gone'' NotFound)) [] =
     Some (Error '''' (Some (Sentinel ''gone'' NotFound)) '''' [] None []) \<and>
   Error_Code (Error '''' (Some (Sentinel ''gone'' NotFound)) '''' [] None []) = NotFound \<and>
   (\<exists>w. Wrap (Some (ErrxError (Error_WithCode (New ''inner'' []) NotFound))) [] = Some w \<and>
        Error_Code w = NotFound \<and> Error_Code (Error_WithCode w Internal) = Internal)"
proof -
  let ?s = "Sentinel ''gone'' NotFound"
  let ?e = "Error ''ctx'' (Some ?s) '''' [] None []"
  let ?f = "Error ''ctx'' (Some ?s) Internal [] None []"
  let ?g = "Error ''ctx'' (Some (Foreign ''boom'' None None)) '''' [] None []"
  have i: "Internal \<noteq> ''''" by (simp add: Internal_def)
  have "Error_Code ?e = CodeOf (cause ?e)"
    using Code_resolution[of ?e] by simp
  then have a: "Error_Code ?e = NotFound" by simp
  have b: "Error_Code ?f = Internal"
    using Code_resolution[of ?f] i by simp
  have ch: "map own_code (chain (ErrxError ?g)) = ['''', '''']"
    by (simp add: chain_ErrxError chain_Foreign)
  then have "\<forall>n \<in> set (chain (ErrxError ?g)). own_code n = ''''"
    by (simp add: chain_ErrxError chain_Foreign)
  then have c: "Error_Code ?g = ''''"
    using Code_resolution[of ?g] by blast
  have w: "Wrap (Some ?s) [] = Some (Error '''' (Some ?s) '''' [] None [])"
    by (simp add: Wrap_def)
  then have "Error_Code (Error '''' (Some ?s) '''' [] None []) = CodeOf (Some ?s)"
    using Code_resolution[of ?e ?s "[]"] by blast
  then have d: "Error_Code (Error '''' (Some ?s) '''' [] None []) = NotFound" by simp
  from Code_resolution[of ?e _ "[]" "''inner''" "[]" NotFound Internal] i
  have e: "\<exists>w. Wrap (Some (ErrxError (Error_WithCode (New ''inner'' []) NotFound))) [] = Some w \<and>
        Error_Code w = NotFound \<and> Error_Code (Error_WithCode w Internal) = Internal"
    by blast
  from a b ch c w d e i show ?thesis by simp
qed

lemma Fields_loop_acc: "Fields_loop acc eo = acc @ Fields_loop [] eo"
proof (induction "size_option size eo" arbitrary: acc eo rule: less_induct)
  case less
  show ?case
  proof (cases eo)
    case None
    then show ?thesis by simp
  next
    case (Some err)
    show ?thesis
    proof (cases "As_Error err")
      case None
      with Some show ?thesis by simp
    next
      case (Some ex)
      have "size_option size (cause ex) < size_option size eo"
        using As_Error_size[OF Some] \<open>eo = Some err\<close>
        by (cases ex) (auto split: option.splits)
      from less[OF this]
      have "\<And>a. Fields_loop a (cause ex) = a @ Fields_loop [] (cause ex)" .
      from this[of "acc @ fields ex"] this[of "[] @ fields ex"]
      show ?thesis using Some \<open>eo = Some err\<close> by simp
    qed
  qed
qed

lemma DetailsOf_loop_acc: "DetailsOf_loop acc eo = acc @ DetailsOf_loop [] eo"
proof (induction "size_option size eo" arbitrary: acc eo rule: less_induct)
  case less
  show ?case
  proof (cases eo)
    case None
    then show ?thesis by simp
  next
    case (Some err)
    show ?thesis
    proof (cases "As_Error err")
      case None
      with Some show ?thesis by simp
    next
      case (Some ex)
      have "size_option size (cause ex) < size_option size eo"
        using As_Error_size[OF Some] \<open>eo = Some err\<close>
        by (cases ex) (auto split: option.splits)
      from less[OF this]
      have "\<And>a. DetailsOf_loop a (cause ex) = a @ DetailsOf_loop [] (cause ex)" .
      from this[of "acc @ details ex"] this[of "[] @ details ex"]
      show ?thesis using Some \<open>eo = Some err\<close> by simp
    qed
  qed
qed

lemma As_Error_chain_fields:
  "As_Error err = None \<Longrightarrow> concat (map own_fields (chain err)) = []"
  "As_Error err = Some ex \<Longrightarrow>
     concat (map own_fields (chain err)) = concat (map own_fields (chain (ErrxError ex)))"
  by (induction err rule: As_Error.induct) (auto simp: chain_Foreign chain_Sentinel)

lemma As_Error_chain_details:
  "As_Error err = None \<Longrightarrow> concat (map own_details (chain err)) = []"
  "As_Error err = Some ex \<Longrightarrow>
     concat (map own_details (chain err)) = concat (map own_details (chain (ErrxError ex)))"
  by (induction err rule: As_Error.induct) (auto simp: chain_Foreign chain_Sentinel)

lemma Fields_chain: "Fields (Some err) = concat (map own_fields (chain err))"
proof (induction "size err" arbitrary: err rule: less_induct)
  case less
  show ?case
  proof (cases "As_Error err")
    case None
    then show ?thesis by (simp add: Fields_def As_Error_chain_fields)
  next
    case (Some ex)
    have e: "Fields (Some err) = fields ex @ Fields (cause ex)"
      using Some Fields_loop_acc[of "fields ex"] by (simp add: Fields_def)
    show ?thesis
    proof (cases "cause ex")
      case None
      then show ?thesis using e Some
        by (simp add: As_Error_chain_fields chain_ErrxError Fields_def)
    next
      case (Some c)
      have "size c < size err"
        using As_Error_size[OF \<open>As_Error err = Some ex\<close>] Some by (cases ex) auto
      from less[OF this] show ?thesis
        using e Some \<open>As_Error err = Some ex\<close>
        by (simp add: As_Error_chain_fields chain_ErrxError)
    qed
  qed
qed

lemma DetailsOf_chain: "DetailsOf (Some err) = concat (map own_details (chain err))"
proof (induction "size err" arbitrary: err rule: less_induct)
  case less
  show ?case
  proof (cases "As_Error err")
    case None
    then show ?thesis by (simp add: DetailsOf_def As_Error_chain_details)
  next
    case (Some ex)
    have e: "DetailsOf (Some err) = details ex @ DetailsOf (cause ex)"
      using Some DetailsOf_loop_acc[of "details ex"] by (simp add: DetailsOf_def)
    show ?thesis
    proof (cases "cause ex")
      case None
      then show ?thesis using e Some
        by (simp add: As_Error_chain_details chain_ErrxError DetailsOf_def)
    next
      case (Some c)
      have "size c < size err"
        using As_Error_size[OF \<open>As_Error err = Some ex\<close>] Some by (cases ex) auto
      from less[OF this] show ?thesis
        using e Some \<open>As_Error err = Some ex\<close>
        by (simp add: As_Error_chain_details chain_ErrxError)
    qed
  qed
qed

text \<open>
  Claim C6, as stated, fails. \<^verbatim>\<open>errors.As\<close> looks through an error of another
  package that unwraps: in the chain of
  \<^verbatim>\<open>Wrap(fmt.Errorf("ctx: %w", New("inner", "k", 1).WithDetails(d)), "a", 0)\<close> the second
  node is foreign, and the field and the detail of the node behind it are returned.
\<close>

theorem Fields_foreign_counterexample:
  "Wrap (Some (Foreign ''ctx: inner'' None
          (Some (ErrxError (Error_WithDetails (New ''inner'' [AnyString ''k'', AnyInt 1])
                              [OtherDetail ''d'']))))) [AnyString ''a'', AnyInt 0]
     = Some (Error '''' (Some (Foreign ''ctx: inner'' None
          (Some (ErrxError (Error ''inner'' None '''' [Attr ''k'' (AnyInt 1)] None
                              [OtherDetail ''d''])))))
          '''' [Attr ''a'' (AnyInt 0)] None []) \<and>
   chain (ErrxError (Error '''' (Some (Foreign ''ctx: inner'' None
          (Some (ErrxError (Error ''inner'' None '''' [Attr ''k'' (AnyInt 1)] None
                              [OtherDetail ''d''])))))
          '''' [Attr ''a'' (AnyInt 0)] None []))
     = [ErrxError (Error '''' (Some (Foreign ''ctx: inner'' None
          (Some (ErrxError (Error ''inner'' None '''' [Attr ''k'' (AnyInt 1)] None
                              [OtherDetail ''d''])))))
          '''' [Attr ''a'' (AnyInt 0)] None []),
        Foreign ''ctx: inner'' None
          (Some (ErrxError (Error ''inner'' None '''' [Attr ''k'' (AnyInt 1)] None
                              [OtherDetail ''d'']))),
        ErrxError (Error ''inner'' None '''' [Attr ''k'' (AnyInt 1)] None [OtherDetail ''d''])] \<and>
   Fields (Some (ErrxError (Error '''' (Some (Foreign ''ctx: inner'' None
          (Some (ErrxError (Error ''inner'' None '''' [Attr ''k'' (AnyInt 1)] None
                              [OtherDetail ''d''])))))
          '''' [Attr ''a'' (AnyInt 0)] None [])))
     = [Attr ''a'' (AnyInt 0), Attr ''k'' (AnyInt 1)] \<and>
   DetailsOf (Some (ErrxError (Error '''' (Some (Foreign ''ctx: inner'' None
          (Some (ErrxError (Error ''inner'' None '''' [Attr ''k'' (AnyInt 1)] None
                              [OtherDetail ''d''])))))
          '''' [Attr ''a'' (AnyInt 0)] None [])))
     = [OtherDetail ''d'']"
  by (simp add: Wrap_def New_def Error_WithDetails_def Fields_def DetailsOf_def
      chain_ErrxError chain_Foreign)

text \<open>
  Claim C6, amended. \<^verbatim>\<open>Fields(err)\<close> and \<^verbatim>\<open>DetailsOf(err)\<close> are the concatenation,
  outermost first, of the own fields and details of every \<^verbatim>\<open>*Error\<close> node of the
  whole chain of \<open>err\<close>; a sentinel or a foreign error in the chain contributes nothing
  and does not hide the nodes behind it. The walk ends where the rest of the chain holds
  no \<^verbatim>\<open>*Error\<close> (\<open>As_Error\<close> fails), and a nil error gives the empty result.
\<close>

theorem Fields_DetailsOf_chain:
  "Fields (Some err) = concat (map own_fields (chain err)) \<and>
   DetailsOf (Some err) = concat (map own_details (chain err)) \<and>
   (As_Error err = None \<longrightarrow> Fields (Some err) = [] \<and> DetailsOf (Some err) = []) \<and>
   Fields None = [] \<and> DetailsOf None = []"
  by (simp add: Fields_chain DetailsOf_chain As_Error_chain_fields As_Error_chain_details)
    (simp add: Fields_def DetailsOf_def)

theorem Fields_DetailsOf_chain_witness:
  "Fields (Some (ErrxError (Error ''outer''
      (Some (ErrxError (Error ''inner'' None '''' [Attr ''k'' (AnyInt 1)] None
                          [OtherDetail ''d''])))
      '''' [Attr ''a'' (AnyInt 0)] None [OtherDetail ''c''])))
     = [Attr ''a'' (AnyInt 0), Attr ''k'' (AnyInt 1)] \<and>
   DetailsOf (Some (ErrxError (Error ''outer''
      (Some (ErrxError (Error ''inner'' None '''' [Attr ''k'' (AnyInt 1)] None
                          [OtherDetail ''d''])))
      '''' [Attr ''a'' (AnyInt 0)] None [OtherDetail ''c''])))
     = [OtherDetail ''c'', OtherDetail ''d''] \<and>
   As_Error (Foreign ''plain'' None (Some (Sentinel ''gone'' NotFound))) = None \<and>
   Fields (Some (Foreign ''plain'' None (Some (Sentinel ''gone'' NotFound)))) = [] \<and>
   DetailsOf (Some (Foreign ''plain'' None (Some (Sentinel ''gone'' NotFound)))) = []"
proof -
  let ?i = "ErrxError (Error ''inner'' None '''' [Attr ''k'' (AnyInt 1)] None [OtherDetail ''d''])"
  let ?o = "ErrxError (Error ''outer'' (Some ?i) '''' [Attr ''a'' (AnyInt 0)] None
              [OtherDetail ''c''])"
  let ?p = "Foreign ''plain'' None (Some (Sentinel ''gone'' NotFound))"
  have c: "chain ?o = [?o, ?i]" by (simp add: chain_ErrxError)
  have n: "As_Error ?p = None" by simp
  from Fields_DetailsOf_chain[of ?o] c
  have a: "Fields (Some ?o) = [Attr ''a'' (AnyInt 0), Attr ''k'' (AnyInt 1)]"
    "DetailsOf (Some ?o) = [OtherDetail ''c'', OtherDetail ''d'']"
    by simp_all
  from Fields_DetailsOf_chain[of ?p] n
  have b: "Fields (Some ?p) = []" "DetailsOf (Some ?p) = []" by blast+
  from a b n show ?thesis by simp
qed

section \<open>Properties of the adapters\<close>

lemma grpc_code_round_trip:
  "c \<in> set well_known_codes \<Longrightarrow> ToGRPCCode c \<noteq> codes_OK \<and> gerr_ToErrxCode (ToGRPCCode c) = c"
  unfolding well_known_codes_def ToGRPCCode_def gerr_ToErrxCode_def errxToGRPC_def grpcToErrx_def
    code_defs codes_defs
  by auto

lemma connect_code_round_trip:
  "c \<in> set well_known_codes \<Longrightarrow> cerr_ToErrxCode (ToConnectCode c) = c"
  unfolding well_known_codes_def ToConnectCode_def cerr_ToErrxCode_def errxToConnect_def
    connectToErrx_def code_defs connect_defs
  by auto

lemma well_known_nonempty: "c \<in> set well_known_codes \<Longrightarrow> c \<noteq> ''''"
  unfolding well_known_codes_def code_defs by auto

lemma ToStatus_code_message:
  "status_code (ToStatus anypb_New (Some err)) = ToGRPCCode (CodeOf (Some err)) \<and>
   status_message (ToStatus anypb_New (Some err)) = error_Error err"
  by (auto simp: ToStatus_def Let_def status_New_def Status_WithDetails_def
      split: option.splits)

lemma rebuilt_Code_Error:
  "c \<noteq> '''' \<Longrightarrow> Error_Code (Error_WithCode (New m []) c) = c"
  "Error_Error (Error_WithCode (New m []) c) = m"
  "c \<noteq> '''' \<Longrightarrow> Error_Code (Error_WithDetails (Error_WithCode (New m []) c) ds) = c"
  "Error_Error (Error_WithDetails (Error_WithCode (New m []) c) ds) = m"
  by (simp_all add: Error_WithCode_def Error_WithDetails_def New_def Error_Code.simps)

lemma foldl_opts_frame:
  "\<forall>opt \<in> set opts. (\<exists>s. opt = WithInstance s) \<or> (\<exists>s. opt = WithType s) \<Longrightarrow>
   Title (foldl (\<lambda>p opt. opt p) p opts) = Title p \<and>
   Status (foldl (\<lambda>p opt. opt p) p opts) = Status p \<and>
   Detail (foldl (\<lambda>p opt. opt p) p opts) = Detail p \<and>
   Code (foldl (\<lambda>p opt. opt p) p opts) = Code p \<and>
   Errors (foldl (\<lambda>p opt. opt p) p opts) = Errors p \<and>
   LocalizedMessage (foldl (\<lambda>p opt. opt p) p opts) = LocalizedMessage p"
  by (induction opts arbitrary: p) (auto simp: WithInstance_def WithType_def)

lemma ToProblemDetail_fields:
  assumes "\<forall>opt \<in> set opts. (\<exists>s. opt = WithInstance s) \<or> (\<exists>s. opt = WithType s)"
  shows "\<exists>p. ToProblemDetail t (Some err) opts = Some p \<and>
     Status p = ToHTTPStatus t (CodeOf (Some err)) \<and>
     Code p = (if CodeOf (Some err) = '''' then Unknown else CodeOf (Some err)) \<and>
     Title p = (if http_StatusText (Status p) = '''' then Code p else http_StatusText (Status p)) \<and>
     Detail p = error_Error err \<and>
     Errors p = List.map_filter toDetailJSON (DetailsOf (Some err))"
  using foldl_opts_frame[OF assms]
  by (simp add: ToProblemDetail_def Let_def)

text \<open>
  Claim C1. For every error whose code is one of the sixteen well-known codes, converting
  it to the wire representation and back preserves the code and the rendered message, on
  the gRPC, the Connect and the HTTP adapter. The library's packing and unpacking
  functions are arbitrary, the HTTP tables are arbitrary (the code string itself travels in
  the payload), and the options are the two the package provides.
\<close>

theorem adapters_round_trip:
  assumes "CodeOf (Some err) \<in> set well_known_codes"
    and "\<forall>opt \<in> set opts. (\<exists>s. opt = WithInstance s) \<or> (\<exists>s. opt = WithType s)"
  shows
   "(\<exists>e. FromStatus UnmarshalNew (Some (ToStatus anypb_New (Some err))) = Some e \<and>
         Error_Code e = CodeOf (Some err) \<and> Error_Error e = error_Error err) \<and>
    (\<exists>ce e. ToConnectError anypb_New (Some err) = Some ce \<and>
         FromConnectError UnmarshalNew (Some ce) = Some e \<and>
         Error_Code e = CodeOf (Some err) \<and> Error_Error e = error_Error err) \<and>
    (\<exists>p e. ToProblemDetail t (Some err) opts = Some p \<and>
         FromProblemDetail t' (Some p) = Some e \<and>
         Error_Code e = CodeOf (Some err) \<and> Error_Error e = error_Error err)"
proof (intro conjI)
  let ?c = "CodeOf (Some err)"
  from assms(1) have ne: "?c \<noteq> ''''" by (rule well_known_nonempty)
  from assms(1) have g: "ToGRPCCode ?c \<noteq> codes_OK" "gerr_ToErrxCode (ToGRPCCode ?c) = ?c"
    using grpc_code_round_trip by blast+
  let ?st = "ToStatus anypb_New (Some err)"
  have sc: "status_code ?st = ToGRPCCode ?c" "status_message ?st = error_Error err"
    using ToStatus_code_message by blast+
  show "\<exists>e. FromStatus UnmarshalNew (Some ?st) = Some e \<and>
         Error_Code e = ?c \<and> Error_Error e = error_Error err"
    using g sc ne
    by (simp add: FromStatus_def Status_Code_def Status_Message_def Let_def rebuilt_Code_Error)
next
  let ?c = "CodeOf (Some err)"
  from assms(1) have ne: "?c \<noteq> ''''" by (rule well_known_nonempty)
  from assms(1) have g: "cerr_ToErrxCode (ToConnectCode ?c) = ?c"
    by (rule connect_code_round_trip)
  let ?ce = "foldl (ToConnectError_step anypb_New) (connect_NewError (ToConnectCode ?c) (Some err))
               (DetailsOf (Some err))"
  have step: "\<And>ce ds. ce_code (foldl (ToConnectError_step anypb_New) ce ds) = ce_code ce \<and>
      ce_err (foldl (ToConnectError_step anypb_New) ce ds) = ce_err ce"
  proof -
    fix ce ds show "ce_code (foldl (ToConnectError_step anypb_New) ce ds) = ce_code ce \<and>
      ce_err (foldl (ToConnectError_step anypb_New) ce ds) = ce_err ce"
      by (induction ds arbitrary: ce)
         (auto simp: ToConnectError_step_def connect_Error_AddDetail_def split: option.splits)
  qed
  have a: "ToConnectError anypb_New (Some err) = Some ?ce"
    by (simp add: ToConnectError_def Let_def)
  have b: "ce_code ?ce = ToConnectCode ?c" "connect_Error_Message ?ce = error_Error err"
    using step[of "connect_NewError (ToConnectCode ?c) (Some err)" "DetailsOf (Some err)"]
    by (simp_all add: connect_NewError_def connect_Error_Message_def)
  have "\<exists>e. FromConnectError UnmarshalNew (Some ?ce) = Some e \<and>
         Error_Code e = ?c \<and> Error_Error e = error_Error err"
    using b g ne by (simp add: FromConnectError_def Let_def rebuilt_Code_Error)
  with a show "\<exists>ce e. ToConnectError anypb_New (Some err) = Some ce \<and>
         FromConnectError UnmarshalNew (Some ce) = Some e \<and>
         Error_Code e = ?c \<and> Error_Error e = error_Error err"
    by blast
next
  let ?c = "CodeOf (Some err)"
  from assms(1) have ne: "?c \<noteq> ''''" by (rule well_known_nonempty)
  from ToProblemDetail_fields[OF assms(2), of t err] obtain p where
    p: "ToProblemDetail t (Some err) opts = Some p" "Code p = ?c" "Detail p = error_Error err"
    using ne by auto
  have "\<exists>e. FromProblemDetail t' (Some p) = Some e \<and>
         Error_Code e = ?c \<and> Error_Error e = error_Error err"
    using p ne by (simp add: FromProblemDetail_def Let_def rebuilt_Code_Error)
  with p(1) show "\<exists>p e. ToProblemDetail t (Some err) opts = Some p \<and>
         FromProblemDetail t' (Some p) = Some e \<and>
         Error_Code e = ?c \<and> Error_Error e = error_Error err"
    by blast
qed

theorem adapters_round_trip_witness:
  "CodeOf (Some (ErrxError (Error_WithDetails (Error_WithCode (New ''user not found'' []) NotFound)
       [FieldViolation ''id'' ''unknown id'']))) = NotFound \<and>
   NotFound \<in> set well_known_codes \<and>
   FromStatus (\<lambda>a. Inr (pb_Other ''m''))
      (Some (ToStatus (\<lambda>m. Some (Any ''t'' ''b''))
        (Some (ErrxError (Error_WithDetails (Error_WithCode (New ''user not found'' []) NotFound)
           [FieldViolation ''id'' ''unknown id''])))))
     = Some (Error ''user not found'' None NotFound [] None [ProtoMessage (pb_Other ''m'')]) \<and>
   (\<exists>e. FromStatus (\<lambda>a. Inr (pb_Other ''m''))
      (Some (ToStatus (\<lambda>m. Some (Any ''t'' ''b''))
        (Some (ErrxError (Error_WithDetails (Error_WithCode (New ''user not found'' []) NotFound)
           [FieldViolation ''id'' ''unknown id'']))))) = Some e \<and>
      Error_Code e = NotFound \<and> Error_Error e = ''user not found'') \<and>
   (\<exists>ce e. ToConnectError (\<lambda>m. Some (Any ''t'' ''b''))
        (Some (ErrxError (Error_WithDetails (Error_WithCode (New ''user not found'' []) NotFound)
           [FieldViolation ''id'' ''unknown id'']))) = Some ce \<and>
      FromConnectError (\<lambda>a. Inr (pb_Other ''m'')) (Some ce) = Some e \<and>
      Error_Code e = NotFound \<and> Error_Error e = ''user not found'') \<and>
   (\<exists>p e. ToProblemDetail init_tables
        (Some (ErrxError (Error_WithDetails (Error_WithCode (New ''user not found'' []) NotFound)
           [FieldViolation ''id'' ''unknown id''])))
        [WithInstance ''/users/1''] = Some p \<and>
      FromProblemDetail init_tables (Some p) = Some e \<and>
      Error_Code e = NotFound \<and> Error_Error e = ''user not found'')"
proof -
  let ?x = "ErrxError (Error_WithDetails (Error_WithCode (New ''user not found'' []) NotFound)
       [FieldViolation ''id'' ''unknown id''])"
  let ?U = "\<lambda>a :: Any. (Inr (pb_Other ''m'') :: string + proto)"
  let ?A = "\<lambda>m :: proto. Some (Any ''t'' ''b'')"
  have xe: "Error_WithDetails (Error_WithCode (New ''user not found'' []) NotFound)
       [FieldViolation ''id'' ''unknown id'']
     = Error ''user not found'' None NotFound [] None
         [BadRequestDetail [BadRequestFieldViolation ''id'' ''unknown id'']]"
    by (simp add: Error_WithDetails_def Error_WithCode_def New_def FieldViolation_def)
  have n: "NotFound \<noteq> ''''" by (simp add: NotFound_def)
  have c: "CodeOf (Some ?x) = NotFound"
    unfolding xe using n by (simp add: Error_Code.simps)
  have m: "error_Error ?x = ''user not found''"
    unfolding xe by simp
  have w: "NotFound \<in> set well_known_codes" by (simp add: well_known_codes_def)
  have o: "\<forall>opt \<in> set [WithInstance ''/users/1'']. (\<exists>s. opt = WithInstance s) \<or> (\<exists>s. opt = WithType s)"
    by auto
  have g: "ToGRPCCode NotFound = 5" "gerr_ToErrxCode 5 = NotFound" "codes_OK \<noteq> 5"
    by (simp_all add: ToGRPCCode_def gerr_ToErrxCode_def errxToGRPC_def grpcToErrx_def
        code_defs codes_defs)
  have d: "DetailsOf (Some ?x) = [BadRequestDetail [BadRequestFieldViolation ''id'' ''unknown id'']]"
    unfolding xe by (simp add: DetailsOf_def)
  have s: "ToStatus ?A (Some ?x) =
      \<lparr> status_code = 5, status_message = ''user not found'', status_details = [Any ''t'' ''b''] \<rparr>"
    unfolding ToStatus_def Let_def c m d g(1) option.case
    using g(3) by (simp add: List.map_filter_simps Status_WithDetails_def status_New_def)
  have f: "FromStatus ?U (Some (ToStatus ?A (Some ?x)))
     = Some (Error ''user not found'' None NotFound [] None [ProtoMessage (pb_Other ''m'')])"
    using g(3) unfolding s
    by (simp add: FromStatus_def Status_Code_def Status_Message_def Status_Details_def Let_def g(2)
        Error_WithDetails_def Error_WithCode_def New_def)
  from adapters_round_trip[of ?x "[WithInstance ''/users/1'']" ?U ?A init_tables init_tables]
    w o
  have "(\<exists>e. FromStatus ?U (Some (ToStatus ?A (Some ?x))) = Some e \<and>
      Error_Code e = NotFound \<and> Error_Error e = ''user not found'') \<and>
   (\<exists>ce e. ToConnectError ?A (Some ?x) = Some ce \<and>
      FromConnectError ?U (Some ce) = Some e \<and>
      Error_Code e = NotFound \<and> Error_Error e = ''user not found'') \<and>
   (\<exists>p e. ToProblemDetail init_tables (Some ?x) [WithInstance ''/users/1''] = Some p \<and>
      FromProblemDetail init_tables (Some p) = Some e \<and>
      Error_Code e = NotFound \<and> Error_Error e = ''user not found'')"
    unfolding c m by blast
  with c w f show ?thesis by blast
qed

text \<open>
  Claim C5. \<^verbatim>\<open>ToProblemDetail\<close> of \<^verbatim>\<open>New("user not found").WithCode(NotFound)\<close> with
  no options is exactly type \<open>about:blank\<close>, title \<open>Not Found\<close>, status 404, detail
  \<open>user not found\<close>, code \<open>not_found\<close>. For every non-nil error (and any tables, and
  the package's options) the status is the mapped status, the title is its reason phrase,
  or the code member when the status has none, the detail is the rendered message, and the
  code member is \<open>unknown\<close> when the resolved code is empty. Status 499 has no reason
  phrase, so a \<open>canceled\<close> error has the title \<open>canceled\<close>.
\<close>

theorem ToProblemDetail_shape:
  "ToProblemDetail init_tables
      (Some (ErrxError (Error_WithCode (New ''user not found'' []) NotFound))) []
     = Some \<lparr> Type = ''about:blank'', Title = ''Not Found'', Status = 404,
              Detail = ''user not found'', Instance = '''', Code = ''not_found'',
              Errors = [], LocalizedMessage = None \<rparr> \<and>
   ((\<forall>opt \<in> set opts. (\<exists>s. opt = WithInstance s) \<or> (\<exists>s. opt = WithType s)) \<longrightarrow>
    (\<exists>p. ToProblemDetail t (Some err) opts = Some p \<and>
       Status p = ToHTTPStatus t (CodeOf (Some err)) \<and>
       Title p = (if http_StatusText (Status p) = '''' then Code p
                  else http_StatusText (Status p)) \<and>
       Detail p = error_Error err \<and>
       Code p = (if CodeOf (Some err) = '''' then ''unknown'' else CodeOf (Some err)))) \<and>
   http_StatusText 499 = '''' \<and>
   ToProblemDetail init_tables (Some (ErrxError (Error_WithCode (New m []) Canceled))) []
     = Some \<lparr> Type = ''about:blank'', Title = ''canceled'', Status = 499,
              Detail = m, Instance = '''', Code = ''canceled'',
              Errors = [], LocalizedMessage = None \<rparr>"
proof (intro conjI impI)
  show "ToProblemDetail init_tables
      (Some (ErrxError (Error_WithCode (New ''user not found'' []) NotFound))) []
     = Some \<lparr> Type = ''about:blank'', Title = ''Not Found'', Status = 404,
              Detail = ''user not found'', Instance = '''', Code = ''not_found'',
              Errors = [], LocalizedMessage = None \<rparr>"
    by (simp add: ToProblemDetail_def Let_def Error_WithCode_def New_def Error_Code.simps
        NotFound_def ToHTTPStatus_def errxToHTTP_init http_StatusText_def DetailsOf_def
        List.map_filter_simps)
next
  assume "\<forall>opt \<in> set opts. (\<exists>s. opt = WithInstance s) \<or> (\<exists>s. opt = WithType s)"
  from ToProblemDetail_fields[OF this, of t err]
  show "\<exists>p. ToProblemDetail t (Some err) opts = Some p \<and>
       Status p = ToHTTPStatus t (CodeOf (Some err)) \<and>
       Title p = (if http_StatusText (Status p) = '''' then Code p
                  else http_StatusText (Status p)) \<and>
       Detail p = error_Error err \<and>
       Code p = (if CodeOf (Some err) = '''' then ''unknown'' else CodeOf (Some err))"
    by (auto simp: Unknown_def)
next
  show "http_StatusText 499 = ''''" by (simp add: http_StatusText_def)
next
  show "ToProblemDetail init_tables (Some (ErrxError (Error_WithCode (New m []) Canceled))) []
     = Some \<lparr> Type = ''about:blank'', Title = ''canceled'', Status = 499,
              Detail = m, Instance = '''', Code = ''canceled'',
              Errors = [], LocalizedMessage = None \<rparr>"
    by (simp add: ToProblemDetail_def Let_def Error_WithCode_def New_def Error_Code.simps
        Canceled_def ToHTTPStatus_def errxToHTTP_init http_StatusText_def DetailsOf_def
        List.map_filter_simps)
qed

theorem ToProblemDetail_shape_witness:
  "ToProblemDetail init_tables
      (Some (ErrxError (Error_WithCode (New ''user not found'' []) NotFound))) []
     = Some \<lparr> Type = ''about:blank'', Title = ''Not Found'', Status = 404,
              Detail = ''user not found'', Instance = '''', Code = ''not_found'',
              Errors = [], LocalizedMessage = None \<rparr> \<and>
   (\<exists>p. ToProblemDetail init_tables (Some (Foreign ''boom'' None None))
           [WithType ''https://example.com/problems/boom'', WithInstance ''/jobs/7''] = Some p \<and>
       Status p = 500 \<and> Title p = ''Internal Server Error'' \<and> Detail p = ''boom'' \<and>
       Code p = ''unknown'') \<and>
   ToProblemDetail init_tables (Some (ErrxError (Error_WithCode (New ''gone'' []) Canceled))) []
     = Some \<lparr> Type = ''about:blank'', Title = ''canceled'', Status = 499,
              Detail = ''gone'', Instance = '''', Code = ''canceled'',
              Errors = [], LocalizedMessage = None \<rparr>"
proof -
  let ?opts = "[WithType ''https://example.com/problems/boom'', WithInstance ''/jobs/7'']"
  let ?b = "Foreign ''boom'' None None"
  have o: "\<forall>opt \<in> set ?opts. (\<exists>s. opt = WithInstance s) \<or> (\<exists>s. opt = WithType s)"
    by auto
  have c: "CodeOf (Some ?b) = ''''" by simp
  have s: "ToHTTPStatus init_tables '''' = 500" "http_StatusText 500 = ''Internal Server Error''"
    by (simp_all add: ToHTTPStatus_def errxToHTTP_init http_StatusText_def
        http_StatusInternalServerError_def)
  note th = ToProblemDetail_shape[of ?opts init_tables ?b "''gone''"]
  from th o obtain p where p: "ToProblemDetail init_tables (Some ?b) ?opts = Some p"
    "Status p = ToHTTPStatus init_tables (CodeOf (Some ?b))"
    "Title p = (if http_StatusText (Status p) = '''' then Code p else http_StatusText (Status p))"
    "Detail p = error_Error ?b"
    "Code p = (if CodeOf (Some ?b) = '''' then ''unknown'' else CodeOf (Some ?b))"
    by blast
  from p(2) c s have "Status p = 500" by simp
  moreover from this p(3) s have "Title p = ''Internal Server Error''" by simp
  moreover from p(4) have "Detail p = ''boom''" by simp
  moreover from p(5) c have "Code p = ''unknown''" by simp
  ultimately have "\<exists>p. ToProblemDetail init_tables (Some ?b) ?opts = Some p \<and>
       Status p = 500 \<and> Title p = ''Internal Server Error'' \<and> Detail p = ''boom'' \<and>
       Code p = ''unknown''"
    using p(1) by blast
  with th show ?thesis by blast
qed

lemma FromConnectError_step_foldl:
  "foldl (FromConnectError_step UnmarshalNew) acc ds =
     acc @ List.map_filter (\<lambda>d. case UnmarshalNew d of Inl e \<Rightarrow> None | Inr v \<Rightarrow> Some (ProtoMessage v)) ds"
  by (induction ds arbitrary: acc)
     (auto simp: FromConnectError_step_def List.map_filter_simps split: sum.splits)

text \<open>
  Claim C7, as stated, fails on the HTTP adapter: \<^verbatim>\<open>FromProblemDetail\<close> reads only the
  \<open>detail\<close>, \<open>code\<close> and \<open>status\<close> members. The problem detail that
  \<^verbatim>\<open>ToProblemDetail\<close> builds from an error with a field violation carries the
  violation in \<open>errors\<close>, and the error rebuilt from it has no details.
\<close>

theorem reverse_counterexample:
  "ToProblemDetail init_tables
      (Some (ErrxError (Error_WithDetails (Error_WithCode (New ''bad request'' []) InvalidArgument)
               [FieldViolation ''email'' ''invalid''])))
      []
     = Some \<lparr> Type = ''about:blank'', Title = ''Bad Request'', Status = 400,
              Detail = ''bad request'', Instance = '''', Code = ''invalid_argument'',
              Errors = [[(''type'', JString ''BadRequest''),
                         (''violations'', JArray [JObject [(''field'', JString ''email''),
                                                          (''description'', JString ''invalid'')]])]],
              LocalizedMessage = None \<rparr> \<and>
   FromProblemDetail init_tables
      (Some \<lparr> Type = ''about:blank'', Title = ''Bad Request'', Status = 400,
              Detail = ''bad request'', Instance = '''', Code = ''invalid_argument'',
              Errors = [[(''type'', JString ''BadRequest''),
                         (''violations'', JArray [JObject [(''field'', JString ''email''),
                                                          (''description'', JString ''invalid'')]])]],
              LocalizedMessage = None \<rparr>)
     = Some (Error ''bad request'' None ''invalid_argument'' [] None []) \<and>
   DetailsOf (Some (ErrxError (Error ''bad request'' None ''invalid_argument'' [] None []))) = []"
  by (simp add: ToProblemDetail_def FromProblemDetail_def Let_def Error_WithDetails_def
      Error_WithCode_def New_def FieldViolation_def Error_Code.simps InvalidArgument_def
      ToHTTPStatus_def errxToHTTP_init http_StatusText_def DetailsOf_def List.map_filter_simps)

text \<open>
  Claim C7, amended. \<^verbatim>\<open>FromStatus\<close> returns nil for an OK status (a nil status is
  OK) and \<^verbatim>\<open>FromConnectError\<close> and \<^verbatim>\<open>FromProblemDetail\<close> return nil for a nil
  pointer. Otherwise each builds a new node, without cause, fields or stack, from the
  protocol message and code: gRPC restores every status detail (the decoded message, or
  the decoding error as the detail), Connect restores every detail whose \<^verbatim>\<open>Value()\<close>
  succeeds, and HTTP takes the \<open>code\<close> member, or the code mapped from the status
  when that member is empty, and restores no details.
\<close>

theorem reverse_conversions:
  "FromStatus UnmarshalNew None = None \<and>
   (status_code s = codes_OK \<longrightarrow> FromStatus UnmarshalNew (Some s) = None) \<and>
   (status_code s \<noteq> codes_OK \<longrightarrow>
      FromStatus UnmarshalNew (Some s) =
        Some (Error (status_message s) None (gerr_ToErrxCode (status_code s)) [] None
               (map (\<lambda>a. case UnmarshalNew a of Inl e \<Rightarrow> OtherDetail e | Inr m \<Rightarrow> ProtoMessage m)
                    (status_details s)))) \<and>
   FromConnectError UnmarshalNew None = None \<and>
   FromConnectError UnmarshalNew (Some ce) =
     Some (Error (connect_Error_Message ce) None (cerr_ToErrxCode (ce_code ce)) [] None
            (List.map_filter
               (\<lambda>d. case UnmarshalNew d of Inl e \<Rightarrow> None | Inr v \<Rightarrow> Some (ProtoMessage v))
               (ce_details ce))) \<and>
   FromProblemDetail t None = None \<and>
   FromProblemDetail t (Some p) =
     Some (Error (Detail p) None
            (if Code p = '''' then herr_ToErrxCode t (Status p) else Code p) [] None [])"
proof (intro conjI impI)
  show "FromStatus UnmarshalNew None = None"
    by (simp add: FromStatus_def Status_Code_def)
  show "FromConnectError UnmarshalNew None = None"
    by (simp add: FromConnectError_def)
  show "FromProblemDetail t None = None"
    by (simp add: FromProblemDetail_def)
  show "FromProblemDetail t (Some p) =
     Some (Error (Detail p) None
            (if Code p = '''' then herr_ToErrxCode t (Status p) else Code p) [] None [])"
    by (simp add: FromProblemDetail_def Let_def Error_WithCode_def New_def)
  show "FromConnectError UnmarshalNew (Some ce) =
     Some (Error (connect_Error_Message ce) None (cerr_ToErrxCode (ce_code ce)) [] None
            (List.map_filter
               (\<lambda>d. case UnmarshalNew d of Inl e \<Rightarrow> None | Inr v \<Rightarrow> Some (ProtoMessage v))
               (ce_details ce)))"
    by (simp add: FromConnectError_def Let_def FromConnectError_step_foldl
        Error_WithDetails_def Error_WithCode_def New_def)
next
  assume "status_code s = codes_OK"
  then show "FromStatus UnmarshalNew (Some s) = None"
    by (simp add: FromStatus_def Status_Code_def)
next
  assume "status_code s \<noteq> codes_OK"
  then show "FromStatus UnmarshalNew (Some s) =
        Some (Error (status_message s) None (gerr_ToErrxCode (status_code s)) [] None
               (map (\<lambda>a. case UnmarshalNew a of Inl e \<Rightarrow> OtherDetail e | Inr m \<Rightarrow> ProtoMessage m)
                    (status_details s)))"
    by (simp add: FromStatus_def Status_Code_def Status_Message_def Status_Details_def Let_def
        Error_WithDetails_def Error_WithCode_def New_def)
qed

theorem reverse_conversions_witness:
  "FromStatus (\<lambda>a. if a = Any ''bad'' '''' then Inl ''cannot decode'' else Inr (pb_Other ''m''))
      (Some \<lparr> status_code = 0, status_message = ''fine'', status_details = [] \<rparr>) = None \<and>
   FromStatus (\<lambda>a. if a = Any ''bad'' '''' then Inl ''cannot decode'' else Inr (pb_Other ''m''))
      (Some \<lparr> status_code = 5, status_message = ''no such user'',
              status_details = [Any ''t'' ''b'', Any ''bad'' ''''] \<rparr>)
     = Some (Error ''no such user'' None ''not_found'' [] None
              [ProtoMessage (pb_Other ''m''), OtherDetail ''cannot decode'']) \<and>
   FromConnectError (\<lambda>a. if a = Any ''bad'' '''' then Inl ''cannot decode'' else Inr (pb_Other ''m''))
      (Some (connect_Error 5 (Some (Foreign ''no such user'' None None))
               [Any ''t'' ''b'', Any ''bad'' '''']))
     = Some (Error ''no such user'' None ''not_found'' [] None [ProtoMessage (pb_Other ''m'')]) \<and>
   FromProblemDetail init_tables
      (Some \<lparr> Type = ''about:blank'', Title = ''Not Found'', Status = 404,
              Detail = ''no such user'', Instance = '''', Code = '''',
              Errors = [[(''type'', JString ''ResourceInfo'')]], LocalizedMessage = None \<rparr>)
     = Some (Error ''no such user'' None ''not_found'' [] None [])"
proof -
  let ?U = "\<lambda>a. if a = Any ''bad'' '''' then Inl ''cannot decode'' else Inr (pb_Other ''m'')"
  let ?ok = "\<lparr> status_code = 0, status_message = ''fine'', status_details = [] \<rparr>"
  let ?st = "\<lparr> status_code = 5, status_message = ''no such user'',
              status_details = [Any ''t'' ''b'', Any ''bad'' ''''] \<rparr>"
  let ?ce = "connect_Error 5 (Some (Foreign ''no such user'' None None))
               [Any ''t'' ''b'', Any ''bad'' '''']"
  let ?p = "\<lparr> Type = ''about:blank'', Title = ''Not Found'', Status = 404,
              Detail = ''no such user'', Instance = '''', Code = '''',
              Errors = [[(''type'', JString ''ResourceInfo'')]], LocalizedMessage = None \<rparr>"
  have k: "status_code ?ok = codes_OK" "status_code ?st \<noteq> codes_OK"
    by (simp_all add: codes_OK_def)
  have t: "gerr_ToErrxCode 5 = ''not_found''" "cerr_ToErrxCode 5 = ''not_found''"
    "herr_ToErrxCode init_tables 404 = ''not_found''"
    by (simp_all add: gerr_ToErrxCode_def grpcToErrx_def cerr_ToErrxCode_def connectToErrx_def
        herr_ToErrxCode_def httpToErrx_init code_defs codes_defs connect_defs)
  from reverse_conversions[of ?U ?ok ?ce init_tables ?p] k(1)
  have a: "FromStatus ?U (Some ?ok) = None" by blast
  from reverse_conversions[of ?U ?st ?ce init_tables ?p] k(2)
  have b: "FromStatus ?U (Some ?st) =
        Some (Error (status_message ?st) None (gerr_ToErrxCode (status_code ?st)) [] None
               (map (\<lambda>a. case ?U a of Inl e \<Rightarrow> OtherDetail e | Inr m \<Rightarrow> ProtoMessage m)
                    (status_details ?st)))"
    and c: "FromConnectError ?U (Some ?ce) =
     Some (Error (connect_Error_Message ?ce) None (cerr_ToErrxCode (ce_code ?ce)) [] None
            (List.map_filter
               (\<lambda>d. case ?U d of Inl e \<Rightarrow> None | Inr v \<Rightarrow> Some (ProtoMessage v))
               (ce_details ?ce)))"
    and d: "FromProblemDetail init_tables (Some ?p) =
     Some (Error (Detail ?p) None
            (if Code ?p = '''' then herr_ToErrxCode init_tables (Status ?p) else Code ?p) [] None [])"
    by blast+
  from a b c d t show ?thesis
    by (simp add: connect_Error_Message_def List.map_filter_simps)
qed

text \<open>
  Claim C8. A nil error is a no-op everywhere: \<^verbatim>\<open>Wrap\<close> and \<^verbatim>\<open>Wrapf\<close> return
  nil, \<^verbatim>\<open>ToProblemDetail\<close> and \<^verbatim>\<open>ToConnectError\<close> return nil, \<^verbatim>\<open>ToStatus\<close>
  returns the OK status with an empty message, and \<^verbatim>\<open>WriteError\<close> leaves the response
  writer as it was (no header, no status, no body written).
\<close>

theorem nil_is_noop:
  "Wrap None args = None \<and>
   Wrapf Sprintf None format fmtArgs = None \<and>
   ToProblemDetail t None opts = None \<and>
   ToConnectError anypb_New None = None \<and>
   ToStatus anypb_New None = \<lparr> status_code = codes_OK, status_message = '''', status_details = [] \<rparr> \<and>
   WriteError json_Marshal t w None opts = Some w"
  by (simp add: Wrap_def Wrapf_def ToProblemDetail_def ToConnectError_def ToStatus_def
      status_New_def WriteError_def)

theorem nil_is_noop_witness:
  "Wrap None [AnyString ''k'', AnyInt 1] = None \<and>
   Wrapf (\<lambda>f a. f) None ''load %s'' [AnyString ''x''] = None \<and>
   ToProblemDetail init_tables None [WithInstance ''/a''] = None \<and>
   ToConnectError (\<lambda>m. None) None = None \<and>
   ToStatus (\<lambda>m. None) None = \<lparr> status_code = 0, status_message = '''', status_details = [] \<rparr> \<and>
   WriteError (\<lambda>p. None) init_tables
       \<lparr> rw_header = Map.empty, rw_status = None, rw_body = '''' \<rparr> None [WithInstance ''/a'']
     = Some \<lparr> rw_header = Map.empty, rw_status = None, rw_body = '''' \<rparr>"
  using nil_is_noop[of "[AnyString ''k'', AnyInt 1]" "\<lambda>f a. f" "''load %s''" "[AnyString ''x'']"
      init_tables "[WithInstance ''/a'']" "\<lambda>m. None" "\<lambda>p. None"
      "\<lparr> rw_header = Map.empty, rw_status = None, rw_body = '''' \<rparr>"]
  by (simp add: codes_OK_def)

section \<open>Properties of locale resolution\<close>

lemma best_loop_leftmost_max:
  "i \<le> n \<Longrightarrow> n \<le> length qs \<Longrightarrow> best < i \<Longrightarrow>
   (\<forall>j<i. qs ! j \<le> qs ! best) \<Longrightarrow> (\<forall>j<best. qs ! j < qs ! best) \<Longrightarrow>
   \<exists>b. best_loop qs n i best = Some b \<and> b < n \<and>
       (\<forall>j<n. qs ! j \<le> qs ! b) \<and> (\<forall>j<b. qs ! j < qs ! b)"
proof (induction qs n i best rule: best_loop.induct)
  case (1 qs n i best)
  show ?case
  proof (cases "i < n")
    case False
    with 1(2-) have "i = n" by simp
    with 1(2-) show ?thesis by (subst best_loop.simps) auto
  next
    case True
    let ?b = "if qs ! i > qs ! best then i else best"
    have r: "i < length qs \<and> best < length qs" using True 1(3,4) by simp
    have a: "i + 1 \<le> n" using True by simp
    have b: "?b < i + 1" using 1(4) by simp
    have c: "\<forall>j<i + 1. qs ! j \<le> qs ! ?b"
    proof (intro allI impI)
      fix j assume "j < i + 1"
      then consider "j < i" | "j = i" by linarith
      then show "qs ! j \<le> qs ! ?b"
      proof cases
        case 1
        then show ?thesis using \<open>\<forall>j<i. qs ! j \<le> qs ! best\<close> by (auto intro: order_trans less_imp_le)
      next
        case 2
        then show ?thesis by auto
      qed
    qed
    have d: "\<forall>j<?b. qs ! j < qs ! ?b"
      using 1(5,6) by (auto intro: le_less_trans)
    from 1(1)[OF True r a 1(3) b c d]
    show ?thesis using True r by (subst best_loop.simps) simp
  qed
qed

text \<open>
  Claim C9. \<^verbatim>\<open>ParseAcceptLanguage\<close> returns the empty string, without panicking, on
  a parse failure and when the library returns no tag (as it does for the empty header).
  Otherwise, the library returning as many weights as tags, it returns without panicking
  the tag whose weight is highest, the leftmost one among equals: no weight exceeds
  that of the chosen tag and every tag before it has a strictly lower weight. With the
  library's results for the three headers of the specification, the answers are
  \<open>ja\<close>, the empty string and the empty string.
\<close>

theorem ParseAcceptLanguage_best:
  "(parse s = (tags, qs, err) \<and> (err \<noteq> None \<or> tags = []) \<longrightarrow>
      ParseAcceptLanguage parse s = Some '''') \<and>
   (parse s = (tags, qs, None) \<and> tags \<noteq> [] \<and> length qs = length tags \<longrightarrow>
      (\<exists>b<length tags.
         ParseAcceptLanguage parse s = Some (Tag_String (tags ! b)) \<and>
         (\<forall>j<length tags. qs ! j \<le> qs ! b) \<and> (\<forall>j<b. qs ! j < qs ! b))) \<and>
   (parse ''ja,en-US;q=0.9,en;q=0.8'' =
        ([Tag ''ja'', Tag ''en-US'', Tag ''en''], [1, 0.9, 0.8], None) \<longrightarrow>
      ParseAcceptLanguage parse ''ja,en-US;q=0.9,en;q=0.8'' = Some ''ja'') \<and>
   (parse '''' = ([], [], None) \<longrightarrow> ParseAcceptLanguage parse '''' = Some '''') \<and>
   (parse ''not a valid header!!!'' = ([], [], Some e) \<longrightarrow>
      ParseAcceptLanguage parse ''not a valid header!!!'' = Some '''')"
proof (intro conjI impI)
  assume "parse s = (tags, qs, err) \<and> (err \<noteq> None \<or> tags = [])"
  then show "ParseAcceptLanguage parse s = Some ''''"
    by (auto simp: ParseAcceptLanguage_def)
next
  assume a: "parse s = (tags, qs, None) \<and> tags \<noteq> [] \<and> length qs = length tags"
  then have "1 \<le> length tags" "length tags \<le> length qs" "(0::nat) < 1"
    "\<forall>j<1. qs ! j \<le> qs ! 0" "\<forall>j<0. qs ! j < qs ! 0"
    by (simp_all add: Suc_le_eq)
  from best_loop_leftmost_max[OF this] obtain b where
    b: "best_loop qs (length tags) 1 0 = Some b" "b < length tags"
       "\<forall>j<length tags. qs ! j \<le> qs ! b" "\<forall>j<b. qs ! j < qs ! b"
    by blast
  have "ParseAcceptLanguage parse s = Some (Tag_String (tags ! b))"
    using a b(1,2) by (simp add: ParseAcceptLanguage_def)
  with b show "\<exists>b<length tags.
         ParseAcceptLanguage parse s = Some (Tag_String (tags ! b)) \<and>
         (\<forall>j<length tags. qs ! j \<le> qs ! b) \<and> (\<forall>j<b. qs ! j < qs ! b)"
    by blast
next
  assume "parse ''ja,en-US;q=0.9,en;q=0.8'' =
        ([Tag ''ja'', Tag ''en-US'', Tag ''en''], [1, 0.9, 0.8], None)"
  then show "ParseAcceptLanguage parse ''ja,en-US;q=0.9,en;q=0.8'' = Some ''ja''"
    by (simp add: ParseAcceptLanguage_def best_loop.simps)
next
  assume "parse '''' = ([], [], None)"
  then show "ParseAcceptLanguage parse '''' = Some ''''"
    by (simp add: ParseAcceptLanguage_def)
next
  assume "parse ''not a valid header!!!'' = ([], [], Some e)"
  then show "ParseAcceptLanguage parse ''not a valid header!!!'' = Some ''''"
    by (simp add: ParseAcceptLanguage_def)
qed

theorem ParseAcceptLanguage_best_witness:
  "ParseAcceptLanguage demo_parse ''ja,en-US;q=0.9,en;q=0.8'' = Some ''ja'' \<and>
   ParseAcceptLanguage demo_parse '''' = Some '''' \<and>
   ParseAcceptLanguage demo_parse ''not a valid header!!!'' = Some '''' \<and>
   ParseAcceptLanguage demo_parse ''bogus,,'' = Some '''' \<and>
   demo_parse ''en;q=0.8,ja;q=0.9,fr;q=0.9'' =
     ([Tag ''en'', Tag ''ja'', Tag ''fr''], [0.8, 0.9, 0.9], None) \<and>
   ParseAcceptLanguage demo_parse ''en;q=0.8,ja;q=0.9,fr;q=0.9'' = Some ''ja''"
proof -
  let ?e = "''language: tag is not well-formed''"
  let ?h = "''en;q=0.8,ja;q=0.9,fr;q=0.9''"
  let ?tags = "[Tag ''en'', Tag ''ja'', Tag ''fr'']"
  let ?qs = "[0.8, 0.9, 0.9 :: real]"
  have p: "demo_parse ''ja,en-US;q=0.9,en;q=0.8'' =
        ([Tag ''ja'', Tag ''en-US'', Tag ''en''], [1, 0.9, 0.8], None)"
    "demo_parse '''' = ([], [], None)"
    "demo_parse ''not a valid header!!!'' = ([], [], Some ?e)"
    "demo_parse ''bogus,,'' = ([], [], Some ?e) \<and> (Some ?e \<noteq> None \<or> ([] :: Tag list) = [])"
    "demo_parse ?h = (?tags, ?qs, None) \<and> ?tags \<noteq> [] \<and> length ?qs = length ?tags"
    by (simp_all add: demo_parse_def)
  note th = ParseAcceptLanguage_best[of demo_parse _ _ _ _ ?e]
  from th p(1,2,3) have a:
    "ParseAcceptLanguage demo_parse ''ja,en-US;q=0.9,en;q=0.8'' = Some ''ja''"
    "ParseAcceptLanguage demo_parse '''' = Some ''''"
    "ParseAcceptLanguage demo_parse ''not a valid header!!!'' = Some ''''"
    by blast+
  from ParseAcceptLanguage_best[of demo_parse "''bogus,,''" "[]" "[]" "Some ?e" ?e] p(4)
  have b: "ParseAcceptLanguage demo_parse ''bogus,,'' = Some ''''" by blast
  from ParseAcceptLanguage_best[of demo_parse ?h ?tags ?qs None ?e] p(5)
  obtain b where c: "b < length ?tags"
      "ParseAcceptLanguage demo_parse ?h = Some (Tag_String (?tags ! b))"
      "\<forall>j<length ?tags. ?qs ! j \<le> ?qs ! b" "\<forall>j<b. ?qs ! j < ?qs ! b"
    by blast
  from c(1) consider "b = 0" | "b = 1" | "b = 2" by fastforce
  then have "b = 1"
  proof cases
    case 1
    with c(3)[rule_format, of 1] show ?thesis by simp
  next
    case 2
    then show ?thesis .
  next
    case 3
    with c(4)[rule_format, of 1] show ?thesis by simp
  qed
  with c(2) have d: "ParseAcceptLanguage demo_parse ?h = Some ''ja''" by simp
  from a b d p(5) show ?thesis by blast
qed

section \<open>Properties of the mutators\<close>

lemma wf_nil_slice: "wf_slice_from n0 arrs nil_slice"
  by (simp add: wf_slice_from_def nil_slice_def)

lemma read_nil_slice: "read_slice arrs nil_slice = []"
  by (simp add: read_slice_def nil_slice_def)

lemma go_append_owned:
  assumes "wf_slice_from n0 arrs s" "n0 \<le> length arrs" "go_append growcap arrs s xs = (s', arrs')"
  shows "take n0 arrs' = take n0 arrs \<and> wf_slice_from n0 arrs' s' \<and>
         read_slice arrs' s' = read_slice arrs s @ xs \<and> length arrs \<le> length arrs'"
proof (cases "sl_len s + length xs \<le> sl_cap s")
  case True
  show ?thesis
  proof (cases "sl_array s")
    case None
    with True assms show ?thesis
      by (auto simp: go_append_def wf_slice_from_def read_slice_def)
  next
    case (Some a)
    with assms(1) have a: "n0 \<le> a" "a < length arrs" "sl_len s \<le> length (arrs ! a)"
      by (simp_all add: wf_slice_from_def)
    from True Some assms(3) have
      s': "s' = s\<lparr> sl_len := sl_len s + length xs \<rparr>" and
      arrs': "arrs' = arrs[a := take (sl_len s) (arrs ! a) @ xs
                            @ drop (sl_len s + length xs) (arrs ! a)]"
      by (simp_all add: go_append_def)
    have "take n0 arrs' = take n0 arrs" using a(1) arrs' by simp
    moreover have "wf_slice_from n0 arrs' s'"
      using a s' arrs' Some by (simp add: wf_slice_from_def)
    moreover have "read_slice arrs' s' = read_slice arrs s @ xs"
      using a s' arrs' Some by (simp add: read_slice_def)
    moreover have "length arrs \<le> length arrs'" using arrs' by simp
    ultimately show ?thesis by blast
  qed
next
  case False
  with assms(3) have
    s': "s' = \<lparr> sl_array = Some (length arrs), sl_len = sl_len s + length xs,
               sl_cap = max (sl_len s + length xs) (growcap (sl_cap s) (sl_len s + length xs)) \<rparr>"
    and arrs': "arrs' = arrs @ [read_slice arrs s @ xs]"
    by (simp_all add: go_append_def)
  have l: "length (read_slice arrs s) = sl_len s"
    using assms(1) by (auto simp: wf_slice_from_def read_slice_def split: option.splits)
  show ?thesis
    using s' arrs' assms(2) l by (simp add: wf_slice_from_def read_slice_def)
qed

lemma copy_then_append:
  assumes "go_append growcap arrs nil_slice old = (s1, arrs1)"
    and "go_append growcap arrs1 s1 new = (s2, arrs2)"
  shows "take (length arrs) arrs2 = arrs \<and> wf_slice_from 0 arrs2 s2 \<and>
         read_slice arrs2 s2 = old @ new \<and> length arrs \<le> length arrs2"
proof -
  let ?n = "length arrs"
  from go_append_owned[OF wf_nil_slice _ assms(1), of ?n]
  have 1: "take ?n arrs1 = arrs" "wf_slice_from ?n arrs1 s1" "read_slice arrs1 s1 = old"
    "?n \<le> length arrs1"
    by (simp_all add: read_nil_slice)
  from go_append_owned[OF 1(2) 1(4) assms(2)]
  have 2: "take ?n arrs2 = take ?n arrs1" "wf_slice_from ?n arrs2 s2"
    "read_slice arrs2 s2 = read_slice arrs1 s1 @ new" "length arrs1 \<le> length arrs2"
    by simp_all
  have "wf_slice_from 0 arrs2 s2"
    using 2(2) by (auto simp: wf_slice_from_def split: option.splits)
  with 1 2 show ?thesis by simp
qed

lemma wf_slice_extend:
  assumes "wf_slice_from 0 arrs s" "take (length arrs) arrs' = arrs"
  shows "wf_slice_from 0 arrs' s \<and> read_slice arrs' s = read_slice arrs s"
proof (cases "sl_array s")
  case None
  with assms show ?thesis by (simp add: wf_slice_from_def read_slice_def)
next
  case (Some a)
  with assms(1) have a: "a < length arrs" "sl_len s \<le> length (arrs ! a)"
    by (simp_all add: wf_slice_from_def)
  have l: "length arrs \<le> length arrs'"
    using assms(2) by (metis length_take min.cobounded1 min.commute)
  have "arrs' ! a = arrs ! a"
    using a(1) assms(2) by (metis nth_take)
  with a l Some show ?thesis by (simp add: wf_slice_from_def read_slice_def)
qed

lemma take_nth_same: "take (length xs) ys = xs \<Longrightarrow> a < length xs \<Longrightarrow> ys ! a = xs ! a"
  by (metis nth_take)

lemma take_length_le: "take (length xs) ys = xs \<Longrightarrow> length xs \<le> length ys"
  by (metis length_take min.cobounded1 min.commute)

lemma unchanged_node:
  assumes "wf_node h nd" "unchanged h h'"
  shows "wf_node h' nd \<and>
         read_slice (h_attrs h') (n_fields nd) = read_slice (h_attrs h) (n_fields nd) \<and>
         read_slice (h_details h') (n_details nd) = read_slice (h_details h) (n_details nd) \<and>
         (case n_stack nd of None \<Rightarrow> None | Some p \<Rightarrow> Some (h_stacks h' ! p)) =
         (case n_stack nd of None \<Rightarrow> None | Some p \<Rightarrow> Some (h_stacks h ! p))"
proof -
  from assms have f: "wf_slice_from 0 (h_attrs h) (n_fields nd)"
    "take (length (h_attrs h)) (h_attrs h') = h_attrs h"
    and d: "wf_slice_from 0 (h_details h) (n_details nd)"
    "take (length (h_details h)) (h_details h') = h_details h"
    and s: "case n_stack nd of None \<Rightarrow> True | Some p \<Rightarrow> p < length (h_stacks h)"
    "take (length (h_stacks h)) (h_stacks h') = h_stacks h"
    by (simp_all add: wf_node_def unchanged_def)
  from wf_slice_extend[OF f] wf_slice_extend[OF d] s
  show ?thesis
    using take_nth_same[OF s(2)] take_length_le[OF s(2)]
    by (auto simp: wf_node_def split: option.splits)
qed

lemma unchanged_views:
  assumes "wf_heap h" "unchanged h h'" "a < length (h_nodes h)"
  shows "view_of h' a = view_of h a \<and> wf_node h' (h_nodes h' ! a)"
proof -
  from assms(2,3) have n: "h_nodes h' ! a = h_nodes h ! a"
    by (simp add: unchanged_def take_nth_same)
  from assms(1,3) have "wf_node h (h_nodes h ! a)"
    by (simp add: wf_heap_def list_all_length)
  from unchanged_node[OF this assms(2)] n show ?thesis
    by (simp add: view_of_def Let_def)
qed

lemma wf_heap_extend:
  assumes "wf_heap h" "unchanged h h'" "h_nodes h' = h_nodes h @ [nd]" "wf_node h' nd"
  shows "wf_heap h'"
proof -
  have "\<forall>a<length (h_nodes h'). wf_node h' (h_nodes h' ! a)"
  proof (intro allI impI)
    fix a assume "a < length (h_nodes h')"
    then consider "a < length (h_nodes h)" | "a = length (h_nodes h)"
      using assms(3) by fastforce
    then show "wf_node h' (h_nodes h' ! a)"
    proof cases
      case 1
      from unchanged_views[OF assms(1,2) 1] show ?thesis by simp
    next
      case 2
      with assms(3,4) show ?thesis by simp
    qed
  qed
  then show ?thesis by (simp add: wf_heap_def list_all_length)
qed

lemma heap_With_frame:
  assumes "wf_heap h" "e < length (h_nodes h)"
  shows "\<exists>h'. heap_With growcap e args h = Some (length (h_nodes h), h') \<and>
           unchanged h h' \<and> wf_heap h' \<and>
           (\<forall>a<length (h_nodes h). view_of h' a = view_of h a) \<and>
           n_cause (h_nodes h' ! length (h_nodes h)) = n_cause (h_nodes h ! e) \<and>
           view_of h' (length (h_nodes h)) =
             (view_of h e)\<lparr> v_fields := v_fields (view_of h e) @ argsToAttrs args \<rparr>"
proof -
  let ?nd = "h_nodes h ! e"
  let ?old = "read_slice (h_attrs h) (n_fields ?nd)"
  obtain s1 arrs1 where 1: "go_append growcap (h_attrs h) nil_slice ?old = (s1, arrs1)"
    by fastforce
  obtain s2 arrs2 where 2: "go_append growcap arrs1 s1 (argsToAttrs args) = (s2, arrs2)"
    by fastforce
  let ?cp = "?nd\<lparr> n_fields := s2 \<rparr>"
  let ?h' = "h\<lparr> h_nodes := h_nodes h @ [?cp], h_attrs := arrs2 \<rparr>"
  from copy_then_append[OF 1 2] have c: "take (length (h_attrs h)) arrs2 = h_attrs h"
    "wf_slice_from 0 arrs2 s2" "read_slice arrs2 s2 = ?old @ argsToAttrs args"
    by simp_all
  have r: "heap_With growcap e args h = Some (length (h_nodes h), ?h')"
    using assms(2) 1 2 by (simp add: heap_With_def Let_def)
  have u: "unchanged h ?h'" using c(1) by (simp add: unchanged_def)
  from assms have wnd: "wf_node h ?nd" by (simp add: wf_heap_def list_all_length)
  from unchanged_node[OF wnd u] have k: "wf_node ?h' ?nd"
    "read_slice (h_details ?h') (n_details ?nd) = read_slice (h_details h) (n_details ?nd)"
    "(case n_stack ?nd of None \<Rightarrow> None | Some p \<Rightarrow> Some (h_stacks ?h' ! p)) =
     (case n_stack ?nd of None \<Rightarrow> None | Some p \<Rightarrow> Some (h_stacks h ! p))"
    by blast+
  have wcp: "wf_node ?h' ?cp" using k(1) c(2) by (simp add: wf_node_def)
  have w: "wf_heap ?h'" by (rule wf_heap_extend[OF assms(1) u _ wcp]) simp
  have v: "\<forall>a<length (h_nodes h). view_of ?h' a = view_of h a"
    using unchanged_views[OF assms(1) u] by blast
  have n: "view_of ?h' (length (h_nodes h)) =
             (view_of h e)\<lparr> v_fields := v_fields (view_of h e) @ argsToAttrs args \<rparr>"
    using c(3) k(2,3) by (simp add: view_of_def Let_def)
  from r u w v n show ?thesis by auto
qed

lemma heap_WithDetails_frame:
  assumes "wf_heap h" "e < length (h_nodes h)"
  shows "\<exists>h'. heap_WithDetails growcap e ds h = Some (length (h_nodes h), h') \<and>
           unchanged h h' \<and> wf_heap h' \<and>
           (\<forall>a<length (h_nodes h). view_of h' a = view_of h a) \<and>
           n_cause (h_nodes h' ! length (h_nodes h)) = n_cause (h_nodes h ! e) \<and>
           view_of h' (length (h_nodes h)) =
             (view_of h e)\<lparr> v_details := v_details (view_of h e) @ ds \<rparr>"
proof -
  let ?nd = "h_nodes h ! e"
  let ?old = "read_slice (h_details h) (n_details ?nd)"
  obtain s1 arrs1 where 1: "go_append growcap (h_details h) nil_slice ?old = (s1, arrs1)"
    by fastforce
  obtain s2 arrs2 where 2: "go_append growcap arrs1 s1 ds = (s2, arrs2)"
    by fastforce
  let ?cp = "?nd\<lparr> n_details := s2 \<rparr>"
  let ?h' = "h\<lparr> h_nodes := h_nodes h @ [?cp], h_details := arrs2 \<rparr>"
  from copy_then_append[OF 1 2] have c: "take (length (h_details h)) arrs2 = h_details h"
    "wf_slice_from 0 arrs2 s2" "read_slice arrs2 s2 = ?old @ ds"
    by simp_all
  have r: "heap_WithDetails growcap e ds h = Some (length (h_nodes h), ?h')"
    using assms(2) 1 2 by (simp add: heap_WithDetails_def Let_def)
  have u: "unchanged h ?h'" using c(1) by (simp add: unchanged_def)
  from assms have wnd: "wf_node h ?nd" by (simp add: wf_heap_def list_all_length)
  from unchanged_node[OF wnd u] have k: "wf_node ?h' ?nd"
    "read_slice (h_attrs ?h') (n_fields ?nd) = read_slice (h_attrs h) (n_fields ?nd)"
    "(case n_stack ?nd of None \<Rightarrow> None | Some p \<Rightarrow> Some (h_stacks ?h' ! p)) =
     (case n_stack ?nd of None \<Rightarrow> None | Some p \<Rightarrow> Some (h_stacks h ! p))"
    by blast+
  have wcp: "wf_node ?h' ?cp" using k(1) c(2) by (simp add: wf_node_def)
  have w: "wf_heap ?h'" by (rule wf_heap_extend[OF assms(1) u _ wcp]) simp
  have v: "\<forall>a<length (h_nodes h). view_of ?h' a = view_of h a"
    using unchanged_views[OF assms(1) u] by blast
  have n: "view_of ?h' (length (h_nodes h)) =
             (view_of h e)\<lparr> v_details := v_details (view_of h e) @ ds \<rparr>"
    using c(3) k(2,3) by (simp add: view_of_def Let_def)
  from r u w v n show ?thesis by auto
qed

lemma heap_WithCode_frame:
  assumes "wf_heap h" "e < length (h_nodes h)"
  shows "\<exists>h'. heap_WithCode e c h = Some (length (h_nodes h), h') \<and>
           unchanged h h' \<and> wf_heap h' \<and>
           (\<forall>a<length (h_nodes h). view_of h' a = view_of h a) \<and>
           n_cause (h_nodes h' ! length (h_nodes h)) = n_cause (h_nodes h ! e) \<and>
           view_of h' (length (h_nodes h)) = (view_of h e)\<lparr> v_code := c \<rparr>"
proof -
  let ?nd = "h_nodes h ! e"
  let ?cp = "?nd\<lparr> n_code := c \<rparr>"
  let ?h' = "h\<lparr> h_nodes := h_nodes h @ [?cp] \<rparr>"
  have r: "heap_WithCode e c h = Some (length (h_nodes h), ?h')"
    using assms(2) by (simp add: heap_WithCode_def Let_def)
  have u: "unchanged h ?h'" by (simp add: unchanged_def)
  from assms have wnd: "wf_node h ?nd" by (simp add: wf_heap_def list_all_length)
  from unchanged_node[OF wnd u] have "wf_node ?h' ?nd" by blast
  then have wcp: "wf_node ?h' ?cp" by (simp add: wf_node_def)
  have w: "wf_heap ?h'" by (rule wf_heap_extend[OF assms(1) u _ wcp]) simp
  have v: "\<forall>a<length (h_nodes h). view_of ?h' a = view_of h a"
    using unchanged_views[OF assms(1) u] by blast
  have n: "view_of ?h' (length (h_nodes h)) = (view_of h e)\<lparr> v_code := c \<rparr>"
    by (simp add: view_of_def Let_def split: option.splits)
  from r u w v n show ?thesis by auto
qed

lemma heap_WithStack_frame:
  assumes "wf_heap h" "e < length (h_nodes h)"
  shows "\<exists>h'. heap_WithStack captured e h = Some (length (h_nodes h), h') \<and>
           unchanged h h' \<and> wf_heap h' \<and>
           (\<forall>a<length (h_nodes h). view_of h' a = view_of h a) \<and>
           n_cause (h_nodes h' ! length (h_nodes h)) = n_cause (h_nodes h ! e) \<and>
           view_of h' (length (h_nodes h)) = (view_of h e)\<lparr> v_stack := Some captured \<rparr>"
proof -
  let ?nd = "h_nodes h ! e"
  let ?cp = "?nd\<lparr> n_stack := Some (length (h_stacks h)) \<rparr>"
  let ?h' = "h\<lparr> h_nodes := h_nodes h @ [?cp], h_stacks := h_stacks h @ [captured] \<rparr>"
  have r: "heap_WithStack captured e h = Some (length (h_nodes h), ?h')"
    using assms(2) by (simp add: heap_WithStack_def Let_def)
  have u: "unchanged h ?h'" by (simp add: unchanged_def)
  from assms have wnd: "wf_node h ?nd" by (simp add: wf_heap_def list_all_length)
  from unchanged_node[OF wnd u] have k: "wf_node ?h' ?nd"
    "read_slice (h_attrs ?h') (n_fields ?nd) = read_slice (h_attrs h) (n_fields ?nd)"
    "read_slice (h_details ?h') (n_details ?nd) = read_slice (h_details h) (n_details ?nd)"
    by blast+
  then have wcp: "wf_node ?h' ?cp" by (simp add: wf_node_def)
  have w: "wf_heap ?h'" by (rule wf_heap_extend[OF assms(1) u _ wcp]) simp
  have v: "\<forall>a<length (h_nodes h). view_of ?h' a = view_of h a"
    using unchanged_views[OF assms(1) u] by blast
  have n: "view_of ?h' (length (h_nodes h)) = (view_of h e)\<lparr> v_stack := Some captured \<rparr>"
    by (simp add: view_of_def Let_def)
  from r u w v n show ?thesis by auto
qed

text \<open>
  The empty store is well formed and the constructors keep a store well formed, as the
  mutators do: the stores that the package's functions build are well formed.
\<close>

lemma wf_empty_heap: "wf_heap empty_heap"
  by (simp add: wf_heap_def empty_heap_def)

lemma heap_New_wf:
  assumes "wf_heap h" "heap_New growcap m args h = (a, h')"
  shows "a = length (h_nodes h) \<and> unchanged h h' \<and> wf_heap h' \<and>
         view_of h' a = \<lparr> v_msg = m, v_code = '''', v_fields = argsToAttrs args,
                           v_details = [], v_stack = None \<rparr>"
proof -
  obtain s arrs where g: "go_append growcap (h_attrs h) nil_slice (argsToAttrs args) = (s, arrs)"
    by fastforce
  let ?nd = "\<lparr> n_msg = m, n_cause = NilError, n_code = '''', n_fields = s,
                 n_stack = None, n_details = nil_slice \<rparr>"
  from assms(2) g have r: "a = length (h_nodes h)"
    "h' = h\<lparr> h_nodes := h_nodes h @ [?nd], h_attrs := arrs \<rparr>"
    by (simp_all add: heap_New_def Let_def)
  from go_append_owned[OF wf_nil_slice _ g, of "length (h_attrs h)"]
  have c: "take (length (h_attrs h)) arrs = h_attrs h" "wf_slice_from (length (h_attrs h)) arrs s"
    "read_slice arrs s = argsToAttrs args"
    by (simp_all add: read_nil_slice)
  have u: "unchanged h h'" using r(2) c(1) by (simp add: unchanged_def)
  have "wf_slice_from 0 arrs s" using c(2) by (auto simp: wf_slice_from_def split: option.splits)
  then have wnd: "wf_node h' ?nd" using r(2) by (simp add: wf_node_def wf_nil_slice)
  have w: "wf_heap h'" by (rule wf_heap_extend[OF assms(1) u _ wnd]) (simp add: r(2))
  have v: "view_of h' a = \<lparr> v_msg = m, v_code = '''', v_fields = argsToAttrs args,
                           v_details = [], v_stack = None \<rparr>"
    using r c(3) by (simp add: view_of_def Let_def read_nil_slice)
  from r(1) u w v show ?thesis by blast
qed

lemma heap_Wrap_wf:
  assumes "wf_heap h" "heap_Wrap growcap err args h = Some (a, h')"
  shows "a = length (h_nodes h) \<and> unchanged h h' \<and> wf_heap h' \<and>
         n_cause (h_nodes h' ! a) = err \<and>
         view_of h' a = \<lparr> v_msg = '''', v_code = '''', v_fields = argsToAttrs args,
                           v_details = [], v_stack = None \<rparr>"
proof -
  obtain s arrs where g: "go_append growcap (h_attrs h) nil_slice (argsToAttrs args) = (s, arrs)"
    by fastforce
  let ?nd = "\<lparr> n_msg = '''', n_cause = err, n_code = '''', n_fields = s,
                 n_stack = None, n_details = nil_slice \<rparr>"
  from assms(2) g have r: "a = length (h_nodes h)"
    "h' = h\<lparr> h_nodes := h_nodes h @ [?nd], h_attrs := arrs \<rparr>"
    by (auto simp: heap_Wrap_def Let_def split: if_splits)
  from go_append_owned[OF wf_nil_slice _ g, of "length (h_attrs h)"]
  have c: "take (length (h_attrs h)) arrs = h_attrs h" "wf_slice_from (length (h_attrs h)) arrs s"
    "read_slice arrs s = argsToAttrs args"
    by (simp_all add: read_nil_slice)
  have u: "unchanged h h'" using r(2) c(1) by (simp add: unchanged_def)
  have "wf_slice_from 0 arrs s" using c(2) by (auto simp: wf_slice_from_def split: option.splits)
  then have wnd: "wf_node h' ?nd" using r(2) by (simp add: wf_node_def wf_nil_slice)
  have w: "wf_heap h'" by (rule wf_heap_extend[OF assms(1) u _ wnd]) (simp add: r(2))
  have v: "view_of h' a = \<lparr> v_msg = '''', v_code = '''', v_fields = argsToAttrs args,
                           v_details = [], v_stack = None \<rparr>"
    using r c(3) by (simp add: view_of_def Let_def read_nil_slice)
  have "n_cause (h_nodes h' ! a) = err" using r by simp
  with r(1) u w v show ?thesis by blast
qed

text \<open>
  A plain \<^verbatim>\<open>append\<close> to a slice with spare capacity does write into the shared
  backing array; the mutators avoid it by copying into a fresh array first.
\<close>

lemma go_append_in_place:
  "go_append growcap [[a]] \<lparr> sl_array = Some 0, sl_len = 1, sl_cap = 4 \<rparr> [b]
     = (\<lparr> sl_array = Some 0, sl_len = 2, sl_cap = 4 \<rparr>, [[a, b]])"
  by (simp add: go_append_def)

text \<open>
  Claim C4. Every mutator (\<^verbatim>\<open>With\<close>, \<^verbatim>\<open>WithCode\<close>, \<^verbatim>\<open>WithDetails\<close>,
  \<^verbatim>\<open>WithStack\<close>) on a published node \<open>e\<close> of a well-formed store returns a newly
  allocated node and leaves every struct, backing array and stack of the store as it
  was: message, code, fields, details and stack of \<open>e\<close>, and of every other node
  published before the call, read the same afterwards. The new node has the same cause
  reference as \<open>e\<close> and differs from \<open>e\<close> in the one component the mutator sets.
  The store stays well formed, so the statement holds again for the next call.
\<close>

theorem mutators_frame:
  assumes "wf_heap h" "e < length (h_nodes h)"
  shows
   "(\<exists>h'. heap_With growcap e args h = Some (length (h_nodes h), h') \<and>
           unchanged h h' \<and> wf_heap h' \<and>
           (\<forall>a<length (h_nodes h). view_of h' a = view_of h a) \<and>
           n_cause (h_nodes h' ! length (h_nodes h)) = n_cause (h_nodes h ! e) \<and>
           view_of h' (length (h_nodes h)) =
             (view_of h e)\<lparr> v_fields := v_fields (view_of h e) @ argsToAttrs args \<rparr>) \<and>
    (\<exists>h'. heap_WithCode e c h = Some (length (h_nodes h), h') \<and>
           unchanged h h' \<and> wf_heap h' \<and>
           (\<forall>a<length (h_nodes h). view_of h' a = view_of h a) \<and>
           n_cause (h_nodes h' ! length (h_nodes h)) = n_cause (h_nodes h ! e) \<and>
           view_of h' (length (h_nodes h)) = (view_of h e)\<lparr> v_code := c \<rparr>) \<and>
    (\<exists>h'. heap_WithDetails growcap e ds h = Some (length (h_nodes h), h') \<and>
           unchanged h h' \<and> wf_heap h' \<and>
           (\<forall>a<length (h_nodes h). view_of h' a = view_of h a) \<and>
           n_cause (h_nodes h' ! length (h_nodes h)) = n_cause (h_nodes h ! e) \<and>
           view_of h' (length (h_nodes h)) =
             (view_of h e)\<lparr> v_details := v_details (view_of h e) @ ds \<rparr>) \<and>
    (\<exists>h'. heap_WithStack captured e h = Some (length (h_nodes h), h') \<and>
           unchanged h h' \<and> wf_heap h' \<and>
           (\<forall>a<length (h_nodes h). view_of h' a = view_of h a) \<and>
           n_cause (h_nodes h' ! length (h_nodes h)) = n_cause (h_nodes h ! e) \<and>
           view_of h' (length (h_nodes h)) = (view_of h e)\<lparr> v_stack := Some captured \<rparr>)"
  using heap_With_frame[OF assms] heap_WithCode_frame[OF assms]
    heap_WithDetails_frame[OF assms] heap_WithStack_frame[OF assms]
  by blast

theorem mutators_frame_witness:
  "wf_heap demo_heap \<and> 0 < length (h_nodes demo_heap) \<and>
   view_of demo_heap 0 =
     \<lparr> v_msg = ''inner'', v_code = '''', v_fields = [Attr ''k'' (AnyInt 1)], v_details = [],
       v_stack = None \<rparr> \<and>
   (\<exists>h'. heap_With (\<lambda>old need. 2 * need) 0 [AnyString ''a'', AnyInt 0] demo_heap = Some (1, h') \<and>
         h_attrs h' = [[Attr ''k'' (AnyInt 1)], [Attr ''k'' (AnyInt 1), Attr ''a'' (AnyInt 0)]] \<and>
         view_of h' 0 = view_of demo_heap 0 \<and>
         n_cause (h_nodes h' ! 1) = OtherError 0 \<and>
         v_fields (view_of h' 1) = [Attr ''k'' (AnyInt 1), Attr ''a'' (AnyInt 0)]) \<and>
   (\<exists>h'. heap_WithCode 0 NotFound demo_heap = Some (1, h') \<and>
         view_of h' 0 = view_of demo_heap 0 \<and>
         n_cause (h_nodes h' ! 1) = OtherError 0 \<and> v_code (view_of h' 1) = NotFound) \<and>
   (\<exists>h'. heap_WithDetails (\<lambda>old need. 2 * need) 0 [OtherDetail ''d''] demo_heap = Some (1, h') \<and>
         view_of h' 0 = view_of demo_heap 0 \<and>
         n_cause (h_nodes h' ! 1) = OtherError 0 \<and>
         v_details (view_of h' 1) = [OtherDetail ''d'']) \<and>
   (\<exists>h'. heap_WithStack (Stack []) 0 demo_heap = Some (1, h') \<and>
         view_of h' 0 = view_of demo_heap 0 \<and>
         n_cause (h_nodes h' ! 1) = OtherError 0 \<and>
         v_stack (view_of h' 1) = Some (Stack []))"
proof -
  let ?g = "\<lambda>old need :: nat. 2 * need"
  let ?args = "[AnyString ''a'', AnyInt 0]"
  have w: "wf_heap demo_heap"
    by (simp add: wf_heap_def wf_node_def wf_slice_from_def demo_heap_def nil_slice_def)
  have l: "0 < length (h_nodes demo_heap)" "length (h_nodes demo_heap) = 1"
    by (simp_all add: demo_heap_def)
  have v0: "view_of demo_heap 0 =
     \<lparr> v_msg = ''inner'', v_code = '''', v_fields = [Attr ''k'' (AnyInt 1)], v_details = [],
       v_stack = None \<rparr>"
    by (simp add: view_of_def demo_heap_def read_slice_def nil_slice_def)
  have c0: "n_cause (h_nodes demo_heap ! 0) = OtherError 0"
    by (simp add: demo_heap_def)
  note th = mutators_frame[OF w l(1), of ?g ?args NotFound "[OtherDetail ''d'']" "Stack []"]
  from th obtain h1 where h1:
    "heap_With ?g 0 ?args demo_heap = Some (length (h_nodes demo_heap), h1)"
    "\<forall>a<length (h_nodes demo_heap). view_of h1 a = view_of demo_heap a"
    "n_cause (h_nodes h1 ! length (h_nodes demo_heap)) = n_cause (h_nodes demo_heap ! 0)"
    "view_of h1 (length (h_nodes demo_heap)) =
       (view_of demo_heap 0)\<lparr> v_fields := v_fields (view_of demo_heap 0) @ argsToAttrs ?args \<rparr>"
    by blast
  let ?H = "demo_heap\<lparr> h_nodes := h_nodes demo_heap @
           [(h_nodes demo_heap ! 0)\<lparr> n_fields := \<lparr> sl_array = Some 1, sl_len = 2, sl_cap = 2 \<rparr> \<rparr>],
         h_attrs := [[Attr ''k'' (AnyInt 1)], [Attr ''k'' (AnyInt 1), Attr ''a'' (AnyInt 0)]] \<rparr>"
  have e1: "heap_With ?g 0 ?args demo_heap = Some (1, ?H)"
    by (simp add: heap_With_def demo_heap_def go_append_def read_slice_def nil_slice_def Let_def)
  from h1(1)[unfolded e1] have "?H = h1" by blast
  then have "h_attrs ?H = h_attrs h1" by (rule arg_cong)
  then have a1: "h_attrs h1 = [[Attr ''k'' (AnyInt 1)], [Attr ''k'' (AnyInt 1), Attr ''a'' (AnyInt 0)]]"
    by simp
  have A: "\<exists>h'. heap_With ?g 0 ?args demo_heap = Some (1, h') \<and>
         h_attrs h' = [[Attr ''k'' (AnyInt 1)], [Attr ''k'' (AnyInt 1), Attr ''a'' (AnyInt 0)]] \<and>
         view_of h' 0 = view_of demo_heap 0 \<and>
         n_cause (h_nodes h' ! 1) = OtherError 0 \<and>
         v_fields (view_of h' 1) = [Attr ''k'' (AnyInt 1), Attr ''a'' (AnyInt 0)]"
    using h1 a1 l c0 v0 by (intro exI[of _ h1]) simp
  from th obtain h2 where h2:
    "heap_WithCode 0 NotFound demo_heap = Some (length (h_nodes demo_heap), h2)"
    "\<forall>a<length (h_nodes demo_heap). view_of h2 a = view_of demo_heap a"
    "n_cause (h_nodes h2 ! length (h_nodes demo_heap)) = n_cause (h_nodes demo_heap ! 0)"
    "view_of h2 (length (h_nodes demo_heap)) = (view_of demo_heap 0)\<lparr> v_code := NotFound \<rparr>"
    by blast
  have B: "\<exists>h'. heap_WithCode 0 NotFound demo_heap = Some (1, h') \<and>
         view_of h' 0 = view_of demo_heap 0 \<and>
         n_cause (h_nodes h' ! 1) = OtherError 0 \<and> v_code (view_of h' 1) = NotFound"
    using h2 l c0 v0 by (intro exI[of _ h2]) simp
  from th obtain h3 where h3:
    "heap_WithDetails ?g 0 [OtherDetail ''d''] demo_heap = Some (length (h_nodes demo_heap), h3)"
    "\<forall>a<length (h_nodes demo_heap). view_of h3 a = view_of demo_heap a"
    "n_cause (h_nodes h3 ! length (h_nodes demo_heap)) = n_cause (h_nodes demo_heap ! 0)"
    "view_of h3 (length (h_nodes demo_heap)) =
       (view_of demo_heap 0)\<lparr> v_details := v_details (view_of demo_heap 0) @ [OtherDetail ''d''] \<rparr>"
    by blast
  have C: "\<exists>h'. heap_WithDetails ?g 0 [OtherDetail ''d''] demo_heap = Some (1, h') \<and>
         view_of h' 0 = view_of demo_heap 0 \<and>
         n_cause (h_nodes h' ! 1) = OtherError 0 \<and>
         v_details (view_of h' 1) = [OtherDetail ''d'']"
    using h3 l c0 v0 by (intro exI[of _ h3]) simp
  from th obtain h4 where h4:
    "heap_WithStack (Stack []) 0 demo_heap = Some (length (h_nodes demo_heap), h4)"
    "\<forall>a<length (h_nodes demo_heap). view_of h4 a = view_of demo_heap a"
    "n_cause (h_nodes h4 ! length (h_nodes demo_heap)) = n_cause (h_nodes demo_heap ! 0)"
    "view_of h4 (length (h_nodes demo_heap)) = (view_of demo_heap 0)\<lparr> v_stack := Some (Stack []) \<rparr>"
    by blast
  have D: "\<exists>h'. heap_WithStack (Stack []) 0 demo_heap = Some (1, h') \<and>
         view_of h' 0 = view_of demo_heap 0 \<and>
         n_cause (h_nodes h' ! 1) = OtherError 0 \<and>
         v_stack (view_of h' 1) = Some (Stack [])"
    using h4 l c0 v0 by (intro exI[of _ h4]) simp
  from w l(1) v0 A B C D show ?thesis by blast
qed

end
